theory Spec2Isabelle
  imports Complex_Main
begin

section \<open>The loan ledger engine of LoanLedger.jsx\<close>

text \<open>
  The development embeds \<^verbatim>\<open>generateLedger\<close> of \<^verbatim>\<open>src/LoanLedger.jsx\<close> together with
  the helpers it calls (\<^verbatim>\<open>parseDate\<close>, \<^verbatim>\<open>getDaysInYear\<close>, \<^verbatim>\<open>calculateSimpleInterest\<close>) and
  the functions of the date library it imports. (\<^verbatim>\<open>src/run.ts\<close> holds another variant of
  the application, with a ledger calculation of its own; it is not embedded.)

  Conventions of the embedding:
  \<^item> A JavaScript \<^verbatim>\<open>Date\<close> is its time value: an integer count of milliseconds, read in
    local time. Days have 86400000 ms (no daylight-saving shifts), and the calendar
    fields of a time value are computed as the language standard does (day number,
    year from day, month from day within year).
  \<^item> A date string is represented by what \<^verbatim>\<open>parseDate\<close> makes of it: \<open>None\<close> when the
    string is empty, not a string or unparseable, and \<open>Some d\<close> when it denotes calendar
    day \<open>d\<close> (days counted from 1970-01-01). The strings the program handles are the
    \<^verbatim>\<open>yyyy-MM-dd\<close> values of date inputs and of \<^verbatim>\<open>toISOString\<close>, so two strings are equal
    exactly when they denote the same day.
  \<^item> The date of a transaction always parses; it is held as its day number.
  \<^item> JavaScript numbers are exact rationals here: rounding of binary floating point is
    not part of the model.
  \<^item> The two rates of the customer record are JavaScript values that are numbers or
    strings: the record is created with the numbers 12 and 10, and an edit of the form
    stores the string of the number input.
  \<^item> The wall clock read by \<^verbatim>\<open>new Date()\<close> inside \<^verbatim>\<open>generateLedger\<close> is the explicit
    argument \<open>now\<close>.
\<close>

subsection \<open>Time values and the calendar\<close>

type_synonym instant = int

type_synonym date_string = "int option"

definition msPerDay :: int where
  "msPerDay = 86400000"

definition Day :: "instant \<Rightarrow> int" where
  "Day t = t div msPerDay"

text \<open>\<^verbatim>\<open>getDaysInYear\<close>, lines 12-14 of the source.\<close>

definition getDaysInYear :: "int \<Rightarrow> int" where
  "getDaysInYear year =
     (if (year mod 4 = 0 \<and> year mod 100 \<noteq> 0) \<or> year mod 400 = 0 then 366 else 365)"

text \<open>The day number of 1 January of year \<open>y\<close>.\<close>

definition DayFromYear :: "int \<Rightarrow> int" where
  "DayFromYear y =
     365 * (y - 1970) + (y - 1969) div 4 - (y - 1901) div 100 + (y - 1601) div 400"

lemma div_succ:
  fixes a n :: int
  assumes "0 < n"
  shows "(a + 1) div n = (if (a + 1) mod n = 0 then a div n + 1 else a div n)"
proof -
  define q where "q = a div n"
  define r where "r = a mod n"
  have a: "a = q * n + r" by (simp add: q_def r_def)
  have r: "0 \<le> r" "r < n" using assms by (simp_all add: r_def)
  show ?thesis
  proof (cases "r + 1 = n")
    case True
    then have "a + 1 = (q + 1) * n" using a by (simp add: algebra_simps)
    then have "(a + 1) div n = q + 1" "(a + 1) mod n = 0" using assms by simp_all
    then show ?thesis by (simp add: q_def)
  next
    case False
    then have lt: "r + 1 < n" using r by linarith
    have e: "a + 1 = (r + 1) + q * n" using a by linarith
    have d: "(a + 1) div n = (r + 1) div n + q" unfolding e using assms by simp
    have m: "(a + 1) mod n = (r + 1) mod n" unfolding e by simp
    have "(r + 1) div n = 0" "(r + 1) mod n = r + 1" using lt r by simp_all
    then show ?thesis using d m r by (simp add: q_def)
  qed
qed

lemma mod_shift: "(k::int) dvd c \<Longrightarrow> ((y - c) mod k = 0) = (y mod k = 0)"
  by (simp add: mod_eq_0_iff_dvd dvd_diff_left_iff)

lemma DayFromYear_step: "DayFromYear (y + 1) = DayFromYear y + getDaysInYear y"
proof -
  have 1: "(y + 1 - 1969) div 4 =
      (if y mod 4 = 0 then (y - 1969) div 4 + 1 else (y - 1969) div 4)"
    using div_succ [of 4 "y - 1969"] mod_shift [of 4 1968 y] by (simp add: algebra_simps)
  have 2: "(y + 1 - 1901) div 100 =
      (if y mod 100 = 0 then (y - 1901) div 100 + 1 else (y - 1901) div 100)"
    using div_succ [of 100 "y - 1901"] mod_shift [of 100 1900 y] by (simp add: algebra_simps)
  have 3: "(y + 1 - 1601) div 400 =
      (if y mod 400 = 0 then (y - 1601) div 400 + 1 else (y - 1601) div 400)"
    using div_succ [of 400 "y - 1601"] mod_shift [of 400 1600 y] by (simp add: algebra_simps)
  have d4: "(4::int) dvd 100" and d100: "(100::int) dvd 400" by simp_all
  have 5: "y mod 100 = 0 \<Longrightarrow> y mod 4 = 0"
    using dvd_trans [OF d4, of y] by (simp add: mod_eq_0_iff_dvd)
  have 4: "y mod 400 = 0 \<Longrightarrow> y mod 100 = 0"
    using dvd_trans [OF d100, of y] by (simp add: mod_eq_0_iff_dvd)
  show ?thesis
    unfolding DayFromYear_def getDaysInYear_def 1 2 3 using 4 5 by auto
qed

lemma getDaysInYear_ge: "365 \<le> getDaysInYear y"
  by (simp add: getDaysInYear_def)

text \<open>
  The year of a day number is the year \<open>y\<close> with
  \<open>DayFromYear y \<le> d < DayFromYear (y + 1)\<close>; it is searched from an estimate.
\<close>

function find_year :: "int \<Rightarrow> int \<Rightarrow> int" where
  "find_year y d =
     (if d < DayFromYear y then find_year (y - 1) d
      else if DayFromYear (y + 1) \<le> d then find_year (y + 1) d
      else y)"
  by pat_completeness auto
termination
proof (relation "measure (\<lambda>(y, d). nat (DayFromYear y - d) + nat (d - DayFromYear (y + 1) + 1))")
  show "wf (measure (\<lambda>(y, d). nat (DayFromYear y - d) + nat (d - DayFromYear (y + 1) + 1)))"
    by simp
next
  fix y d :: int
  assume "d < DayFromYear y"
  moreover have "DayFromYear y = DayFromYear (y - 1) + getDaysInYear (y - 1)"
    using DayFromYear_step [of "y - 1"] by simp
  moreover have "DayFromYear (y + 1) = DayFromYear y + getDaysInYear y"
    by (rule DayFromYear_step)
  ultimately show "((y - 1, d), (y, d)) \<in>
      measure (\<lambda>(y, d). nat (DayFromYear y - d) + nat (d - DayFromYear (y + 1) + 1))"
    using getDaysInYear_ge [of "y - 1"] getDaysInYear_ge [of y] by simp
next
  fix y d :: int
  assume "\<not> d < DayFromYear y" "DayFromYear (y + 1) \<le> d"
  moreover have "DayFromYear (y + 1 + 1) = DayFromYear (y + 1) + getDaysInYear (y + 1)"
    by (rule DayFromYear_step)
  moreover have "DayFromYear (y + 1) = DayFromYear y + getDaysInYear y"
    by (rule DayFromYear_step)
  ultimately show "((y + 1, d), (y, d)) \<in>
      measure (\<lambda>(y, d). nat (DayFromYear y - d) + nat (d - DayFromYear (y + 1) + 1))"
    using getDaysInYear_ge [of "y + 1"] getDaysInYear_ge [of y] by simp
qed

declare find_year.simps [simp del]

definition YearFromDay :: "int \<Rightarrow> int" where
  "YearFromDay d = find_year (1970 + d div 365) d"

text \<open>\<open>InLeapYear\<close> is 1 in a leap year and 0 otherwise.\<close>

definition InLeapYear :: "int \<Rightarrow> int" where
  "InLeapYear y = (if getDaysInYear y = 366 then 1 else 0)"

text \<open>
  Months are numbered from 0 as \<^verbatim>\<open>getMonth\<close> does. \<open>daysBeforeMonth m L\<close> is the number of
  days of the year before month \<open>m\<close>; month 12 stands for January of the next year, as
  \<^verbatim>\<open>setMonth(12, ...)\<close> does.
\<close>

definition daysBeforeMonth :: "int \<Rightarrow> int \<Rightarrow> int" where
  "daysBeforeMonth m L =
     (if m \<le> 0 then 0 else if m = 1 then 31 else if m = 2 then 59 + L
      else if m = 3 then 90 + L else if m = 4 then 120 + L else if m = 5 then 151 + L
      else if m = 6 then 181 + L else if m = 7 then 212 + L else if m = 8 then 243 + L
      else if m = 9 then 273 + L else if m = 10 then 304 + L else if m = 11 then 334 + L
      else 365 + L)"

definition MonthFromDayWithinYear :: "int \<Rightarrow> int \<Rightarrow> int" where
  "MonthFromDayWithinYear n L =
     (if n < 31 then 0 else if n < 59 + L then 1 else if n < 90 + L then 2
      else if n < 120 + L then 3 else if n < 151 + L then 4 else if n < 181 + L then 5
      else if n < 212 + L then 6 else if n < 243 + L then 7 else if n < 273 + L then 8
      else if n < 304 + L then 9 else if n < 334 + L then 10 else 11)"

definition getYear :: "instant \<Rightarrow> int" where
  "getYear t = YearFromDay (Day t)"

definition getMonth :: "instant \<Rightarrow> int" where
  "getMonth t =
     MonthFromDayWithinYear (Day t - DayFromYear (getYear t)) (InLeapYear (getYear t))"

subsection \<open>The date library\<close>

definition startOfDay :: "instant \<Rightarrow> instant" where
  "startOfDay t = Day t * msPerDay"

text \<open>
  \<^verbatim>\<open>endOfQuarter\<close>: with \<open>month = currentMonth - currentMonth % 3 + 3\<close> the library sets
  the date to day 0 of that month (the last day of the month before it) and the time
  to 23:59:59.999.
\<close>

definition endOfQuarter :: "instant \<Rightarrow> instant" where
  "endOfQuarter t =
     (let currentMonth = getMonth t;
          month = currentMonth - currentMonth mod 3 + 3
      in (DayFromYear (getYear t) + daysBeforeMonth month (InLeapYear (getYear t)) - 1) * msPerDay
           + (msPerDay - 1))"

definition addDays :: "instant \<Rightarrow> int \<Rightarrow> instant" where
  "addDays t amount = t + amount * msPerDay"

definition isAfter :: "instant \<Rightarrow> instant \<Rightarrow> bool" where
  "isAfter a b = (b < a)"

definition isBefore :: "instant \<Rightarrow> instant \<Rightarrow> bool" where
  "isBefore a b = (a < b)"

definition isSameDay :: "instant \<Rightarrow> instant \<Rightarrow> bool" where
  "isSameDay a b = (startOfDay a = startOfDay b)"

text \<open>\<^verbatim>\<open>differenceInDays\<close> counts the full days between two time values.\<close>

definition differenceInDays :: "instant \<Rightarrow> instant \<Rightarrow> int" where
  "differenceInDays a b =
     (if b \<le> a then (a - b) div msPerDay else - ((b - a) div msPerDay))"

text \<open>
  \<^verbatim>\<open>parseDate\<close>, lines 6-10: \<open>null\<close> for a string that is empty or does not parse, the
  start of the day it denotes otherwise.
\<close>

definition parseDate :: "date_string \<Rightarrow> instant option" where
  "parseDate dateString =
     (case dateString of None \<Rightarrow> None | Some d \<Rightarrow> Some (startOfDay (d * msPerDay)))"

text \<open>The string \<^verbatim>\<open>yyyy-MM-dd\<close> written with year \<open>y\<close>, month \<open>m\<close> (from 1) and day \<open>d\<close>.\<close>

definition dateString :: "int \<Rightarrow> int \<Rightarrow> int \<Rightarrow> int" where
  "dateString y m d = DayFromYear y + daysBeforeMonth (m - 1) (InLeapYear y) + d - 1"

subsection \<open>Interest\<close>

text \<open>
  \<^verbatim>\<open>calculateSimpleInterest\<close>, lines 16-19 (\<open>princ\<close> is its parameter \<^verbatim>\<open>principal\<close>). The
  function is given numbers: where the caller holds the rate as a string, the number
  that the product \<^verbatim>\<open>principal * rate\<close> makes of it is what is passed.
\<close>

definition calculateSimpleInterest :: "rat \<Rightarrow> rat \<Rightarrow> int \<Rightarrow> int \<Rightarrow> rat" where
  "calculateSimpleInterest princ rate days year =
     (if princ \<le> 0 \<or> days \<le> 0 then 0
      else (princ * rate * of_int days) / (100 * of_int (getDaysInYear year)))"

subsection \<open>Data\<close>

text \<open>
  The value of a rate field. A new ledger has the numbers 12 and 10 (line 136).
  \<^verbatim>\<open>handleCustomerChange\<close> (lines 147-154) stores \<^verbatim>\<open>e.target.value\<close> of the number input
  (lines 291, 295), which is a string: the empty string when the field is empty, a
  numeral otherwise. \<open>NumericString r\<close> stands for a numeral that denotes \<open>r\<close>, so
  \<open>NumericString 0\<close> is the string \<^verbatim>\<open>"0"\<close>.

  \<open>truthy\<close> is the truth value JavaScript gives the value (\<^verbatim>\<open>!v\<close> is its negation): a
  number is falsy when it is 0, a string when it is empty. \<open>ToNumber\<close> is the number an
  arithmetic operator makes of it; the empty string becomes 0.
\<close>

datatype js_number = Number rat | NumericString rat | EmptyString

fun truthy :: "js_number \<Rightarrow> bool" where
  "truthy (Number r) = (r \<noteq> 0)"
| "truthy (NumericString r) = True"
| "truthy EmptyString = False"

fun ToNumber :: "js_number \<Rightarrow> rat" where
  "ToNumber (Number r) = r"
| "ToNumber (NumericString r) = r"
| "ToNumber EmptyString = 0"

record customer =
  iclStartDate :: date_string
  iclEndDate :: date_string
  interestMethod :: string
  interestRate :: js_number
  tdsRate :: js_number

record transaction =
  tx_date :: int
  tx_paid :: rat
  tx_repaid :: rat

text \<open>
  The rows pushed to \<^verbatim>\<open>newLedgerRows\<close>. The field \<open>date\<close> is the day number of the string
  \<^verbatim>\<open>format(eventDate, 'yyyy-MM-dd')\<close>; the kind of a row is its \<open>description\<close>.
\<close>

record ledger_row =
  date :: int
  description :: string
  paid :: rat
  repaid :: rat
  principal :: rat
  interest :: rat
  tds :: rat
  netInterest :: rat
  cumulativeInterest :: rat

text \<open>\<^verbatim>\<open>parseDate(t.date)\<close> for a transaction \<open>t\<close>.\<close>

definition txDate :: "transaction \<Rightarrow> instant" where
  "txDate t = startOfDay (tx_date t * msPerDay)"

subsection \<open>The timeline\<close>

text \<open>\<^verbatim>\<open>Set.prototype.add\<close>: a set keeps the order of insertion and ignores a repeated value.\<close>

definition set_add :: "'a list \<Rightarrow> 'a \<Rightarrow> 'a list" where
  "set_add s x = (if x \<in> set s then s else s @ [x])"

text \<open>Facts of the calendar: the year found contains the day, and a quarter ends after it starts.\<close>

lemma find_year_bounds:
  "DayFromYear (find_year y d) \<le> d \<and> d < DayFromYear (find_year y d + 1)"
proof (induction y d rule: find_year.induct)
  case (1 y d)
  show ?case
  proof (cases "d < DayFromYear y")
    case True
    with 1 show ?thesis by (simp add: find_year.simps [of y d])
  next
    case False
    note nlt = this
    show ?thesis
    proof (cases "DayFromYear (y + 1) \<le> d")
      case True
      with 1 nlt show ?thesis by (simp add: find_year.simps [of y d])
    next
      case False
      with nlt show ?thesis by (simp add: find_year.simps [of y d])
    qed
  qed
qed

lemma YearFromDay_bounds:
  "DayFromYear (YearFromDay d) \<le> d" "d < DayFromYear (YearFromDay d + 1)"
  using find_year_bounds [of "1970 + d div 365" d] by (simp_all add: YearFromDay_def)

lemma quarter_of_month:
  "0 \<le> m \<Longrightarrow> m \<le> 11 \<Longrightarrow>
   (m::int) - m mod 3 + 3 = (if m < 3 then 3 else if m < 6 then 6 else if m < 9 then 9 else 12)"
  by presburger

lemma month_range: "0 \<le> MonthFromDayWithinYear n L" "MonthFromDayWithinYear n L \<le> 11"
  by (simp_all add: MonthFromDayWithinYear_def)

lemma month_quarters:
  assumes "0 \<le> L"
  shows "MonthFromDayWithinYear n L < 3 \<Longrightarrow> n < 90 + L"
    and "MonthFromDayWithinYear n L < 6 \<Longrightarrow> n < 181 + L"
    and "MonthFromDayWithinYear n L < 9 \<Longrightarrow> n < 273 + L"
  using assms by (simp_all add: MonthFromDayWithinYear_def split: if_splits)

lemma quarter_month_bound:
  assumes "0 \<le> n" "n < 365 + L" "L = 0 \<or> L = 1"
  shows "n < daysBeforeMonth (MonthFromDayWithinYear n L - MonthFromDayWithinYear n L mod 3 + 3) L"
proof -
  have L: "0 \<le> L" using assms(3) by auto
  show ?thesis
    unfolding quarter_of_month [OF month_range]
    using month_quarters [OF L, of n] assms(2)
    by (simp add: daysBeforeMonth_def)
qed

lemma Day_bounds: "Day t * msPerDay \<le> t" "t < (Day t + 1) * msPerDay"
proof -
  have "t = Day t * msPerDay + t mod msPerDay" by (simp add: Day_def)
  moreover have "0 \<le> t mod msPerDay" "t mod msPerDay < msPerDay" by (simp_all add: msPerDay_def)
  ultimately show "Day t * msPerDay \<le> t" "t < (Day t + 1) * msPerDay"
    by (simp_all add: algebra_simps)
qed

lemma endOfQuarter_ge: "t \<le> endOfQuarter t"
proof -
  define y where "y = getYear t"
  define L where "L = InLeapYear y"
  define n where "n = Day t - DayFromYear y"
  have y: "DayFromYear y \<le> Day t" "Day t < DayFromYear (y + 1)"
    using YearFromDay_bounds [of "Day t"] by (simp_all add: y_def getYear_def)
  have L: "L = 0 \<or> L = 1" by (simp add: L_def InLeapYear_def)
  have len: "getDaysInYear y = 365 + L"
    by (simp add: L_def InLeapYear_def getDaysInYear_def)
  have n: "0 \<le> n" "n < 365 + L"
    using y DayFromYear_step [of y] len by (simp_all add: n_def)
  define qm where "qm = MonthFromDayWithinYear n L - MonthFromDayWithinYear n L mod 3 + 3"
  have "n < daysBeforeMonth qm L"
    unfolding qm_def by (rule quarter_month_bound [OF n L])
  then have "Day t + 1 \<le> DayFromYear y + daysBeforeMonth qm L" by (simp add: n_def)
  then have "(Day t + 1) * msPerDay \<le> (DayFromYear y + daysBeforeMonth qm L) * msPerDay"
    by (simp add: msPerDay_def)
  with Day_bounds(2) [of t] have "t < (DayFromYear y + daysBeforeMonth qm L) * msPerDay"
    by linarith
  moreover have "endOfQuarter t =
      (DayFromYear y + daysBeforeMonth qm L - 1) * msPerDay + (msPerDay - 1)"
    unfolding endOfQuarter_def getMonth_def Let_def qm_def n_def L_def y_def by (rule refl)
  ultimately show ?thesis by (simp add: algebra_simps)
qed

text \<open>
  The \<^verbatim>\<open>while\<close> loop of lines 60-67, which adds the quarter ends to \<open>eventDates\<close>. The
  string \<^verbatim>\<open>quarterEnd.toISOString().split('T')[0]\<close> is represented by the local calendar
  day of \<open>quarterEnd\<close>, the day \<^verbatim>\<open>parseDate\<close> reads back from it. The loop terminates
  because the end of a quarter is never before the time value it is taken of.
\<close>

function quarterEnds :: "instant \<Rightarrow> instant \<Rightarrow> instant \<Rightarrow> int list \<Rightarrow> int list" where
  "quarterEnds firstTransactionDate lastPossibleDate currentDate eventDates =
     (if \<not> isAfter currentDate lastPossibleDate then
        quarterEnds firstTransactionDate lastPossibleDate
          (addDays (endOfQuarter currentDate) 1)
          (if \<not> isAfter (endOfQuarter currentDate) lastPossibleDate
              \<and> \<not> isBefore (endOfQuarter currentDate) firstTransactionDate
           then set_add eventDates (Day (endOfQuarter currentDate))
           else eventDates)
      else eventDates)"
  by pat_completeness auto
termination
proof (relation "measure (\<lambda>(f, l, c, e). nat (l - c + 1))")
  show "wf (measure (\<lambda>(f, l, c, e). nat (l - c + 1)))" by simp
next
  fix firstTransactionDate lastPossibleDate currentDate :: instant and eventDates :: "int list"
  assume "\<not> isAfter currentDate lastPossibleDate"
  then have "currentDate \<le> lastPossibleDate" by (simp add: isAfter_def)
  moreover have "currentDate < addDays (endOfQuarter currentDate) 1"
    using endOfQuarter_ge [of currentDate] by (simp add: addDays_def msPerDay_def)
  ultimately show "((firstTransactionDate, lastPossibleDate, addDays (endOfQuarter currentDate) 1,
        if \<not> isAfter (endOfQuarter currentDate) lastPossibleDate
            \<and> \<not> isBefore (endOfQuarter currentDate) firstTransactionDate
        then set_add eventDates (Day (endOfQuarter currentDate)) else eventDates),
       firstTransactionDate, lastPossibleDate, currentDate, eventDates)
      \<in> measure (\<lambda>(f, l, c, e). nat (l - c + 1))"
    by simp
qed

declare quarterEnds.simps [simp del]

subsection \<open>The accrual loop\<close>

text \<open>
  One iteration of the \<^verbatim>\<open>for\<close> loop of lines 79-123, for the event date \<open>eventDate\<close> and
  the next event date (\<open>None\<close> at the last index). The iteration receives the loop
  variables \<^verbatim>\<open>runningPrincipal\<close> and \<^verbatim>\<open>cumulativeInterest\<close> as \<open>P\<close> and \<open>C\<close> and returns
  the rows it pushes together with the new values of the two variables.
\<close>

definition ledger_step ::
  "customer \<Rightarrow> transaction list \<Rightarrow> instant \<Rightarrow> instant \<Rightarrow> instant option \<Rightarrow> rat \<Rightarrow> rat
     \<Rightarrow> ledger_row list \<times> rat \<times> rat" where
  "ledger_step cust sortedTransactions startDate eventDate nextEventDate P C =
     (let transactionsOnDate = filter (\<lambda>t. isSameDay (txDate t) eventDate) sortedTransactions;
          paidToday = fold (\<lambda>t acc. acc + tx_paid t) transactionsOnDate 0;
          repaidToday = fold (\<lambda>t acc. acc + tx_repaid t) transactionsOnDate 0;
          runningPrincipal = P + (paidToday - repaidToday);
          daysInPeriod = (case nextEventDate of
                            Some n \<Rightarrow> differenceInDays n eventDate
                          | None \<Rightarrow> 1);
          gross = calculateSimpleInterest runningPrincipal (ToNumber (interestRate cust))
                    daysInPeriod (getYear eventDate);
          tdsAmount = gross * (ToNumber (tdsRate cust) / 100);
          net = gross - tdsAmount;
          cumulative = C + net;
          row = \<lparr> date = Day eventDate,
                  description = (if paidToday > 0 then ''Deposit''
                                 else if repaidToday > 0 then ''Repayment''
                                 else ''Interest Period''),
                  paid = paidToday, repaid = repaidToday, principal = runningPrincipal,
                  interest = gross, tds = tdsAmount, netInterest = net,
                  cumulativeInterest = cumulative \<rparr>;
          isCurrentEventQuarterEnd = isSameDay eventDate (endOfQuarter eventDate);
          useCompound = (isAfter eventDate startDate \<or> isSameDay eventDate startDate)
      in if isCurrentEventQuarterEnd \<and> useCompound \<and> interestMethod cust = ''Compound''
            \<and> cumulative > 0
         then ([row,
                \<lparr> date = Day eventDate, description = ''Quarterly Interest Capitalized'',
                  paid = 0, repaid = 0, principal = runningPrincipal + cumulative,
                  interest = 0, tds = 0, netInterest = 0, cumulativeInterest = cumulative \<rparr>],
               runningPrincipal + cumulative, 0)
         else ([row], runningPrincipal, cumulative))"

text \<open>The loop over \<^verbatim>\<open>uniqueSortedDates\<close>; the rows are returned in the order they are pushed.\<close>

fun ledger_loop ::
  "customer \<Rightarrow> transaction list \<Rightarrow> instant \<Rightarrow> instant list \<Rightarrow> rat \<Rightarrow> rat \<Rightarrow> ledger_row list"
  where
  "ledger_loop cust txs startDate [] P C = []"
| "ledger_loop cust txs startDate (eventDate # rest) P C =
     (case ledger_step cust txs startDate eventDate
             (case rest of [] \<Rightarrow> None | n # _ \<Rightarrow> Some n) P C of
        (rows, P', C') \<Rightarrow> rows @ ledger_loop cust txs startDate rest P' C')"

subsection \<open>generateLedger\<close>

text \<open>
  Lines 43-48: \<open>notAfterEnd\<close> is the callback of the filter, and \<open>sortedTransactions\<close> the
  transactions it keeps, in date order (the sort is stable).
\<close>

definition notAfterEnd :: "customer \<Rightarrow> transaction \<Rightarrow> bool" where
  "notAfterEnd cust t =
     (case parseDate (iclEndDate cust) of
        Some endDate \<Rightarrow> \<not> isAfter (txDate t) endDate
      | None \<Rightarrow> True)"

definition sortedTransactions :: "customer \<Rightarrow> transaction list \<Rightarrow> transaction list" where
  "sortedTransactions cust transactions =
     sort_key txDate (filter (notAfterEnd cust) transactions)"

text \<open>
  Lines 54-73: the event dates. The set of date strings is the list of the days they
  denote, in insertion order.
\<close>

definition uniqueSortedDates :: "instant \<Rightarrow> customer \<Rightarrow> transaction list \<Rightarrow> instant list" where
  "uniqueSortedDates now cust sortedTxs =
     (let firstTransactionDate = txDate (hd sortedTxs);
          eventDates0 = fold (\<lambda>t s. set_add s (tx_date t)) sortedTxs [];
          lastPossibleDate = (case parseDate (iclEndDate cust) of
                                Some endDate \<Rightarrow> endDate
                              | None \<Rightarrow> startOfDay now);
          eventDates1 = quarterEnds firstTransactionDate lastPossibleDate firstTransactionDate
                          eventDates0;
          eventDates2 = (case iclEndDate cust of
                           Some d \<Rightarrow> (case parseDate (iclEndDate cust) of
                                        Some endDate \<Rightarrow> set_add eventDates1 d
                                      | None \<Rightarrow> eventDates1)
                         | None \<Rightarrow> eventDates1)
      in sort (map (\<lambda>d. startOfDay (d * msPerDay)) eventDates2))"

text \<open>
  \<^verbatim>\<open>generateLedger\<close>, lines 35-126. \<^verbatim>\<open>!customer.interestRate\<close> holds of the number 0 and
  of the empty string, and not of the string \<^verbatim>\<open>"0"\<close>.
  \<open>uniqueSortedDates\<close> is only reached with a non-empty \<open>sortedTransactions\<close>.
\<close>

definition generateLedger :: "instant \<Rightarrow> customer \<Rightarrow> transaction list \<Rightarrow> ledger_row list" where
  "generateLedger now cust transactions =
     (case parseDate (iclStartDate cust) of
        None \<Rightarrow> []
      | Some startDate \<Rightarrow>
          if \<not> truthy (interestRate cust) \<or> length transactions = 0 then []
          else if length (sortedTransactions cust transactions) = 0 then []
          else ledger_loop cust (sortedTransactions cust transactions) startDate
                 (uniqueSortedDates now cust (sortedTransactions cust transactions)) 0 0)"

subsection \<open>The parts of one iteration\<close>

text \<open>
  The row pushed at lines 102-109, the test of line 113 and the row pushed at lines
  115-120, named so that the iteration can be reasoned about piecewise; \<open>ledger_step_eq\<close>
  below shows that \<open>ledger_step\<close> is built from exactly these parts. \<open>ledger_adj\<close> is the
  relation that holds between each row and the row pushed after it.
\<close>

definition is_cap :: "ledger_row \<Rightarrow> bool" where
  "is_cap r = (description r = ''Quarterly Interest Capitalized'')"

definition event_row ::
  "customer \<Rightarrow> transaction list \<Rightarrow> instant \<Rightarrow> instant option \<Rightarrow> rat \<Rightarrow> rat \<Rightarrow> ledger_row" where
  "event_row cust txs eventDate nextEventDate P C =
     (let transactionsOnDate = filter (\<lambda>t. isSameDay (txDate t) eventDate) txs;
          paidToday = fold (\<lambda>t acc. acc + tx_paid t) transactionsOnDate 0;
          repaidToday = fold (\<lambda>t acc. acc + tx_repaid t) transactionsOnDate 0;
          runningPrincipal = P + (paidToday - repaidToday);
          daysInPeriod = (case nextEventDate of
                            Some n \<Rightarrow> differenceInDays n eventDate
                          | None \<Rightarrow> 1);
          gross = calculateSimpleInterest runningPrincipal (ToNumber (interestRate cust))
                    daysInPeriod (getYear eventDate);
          tdsAmount = gross * (ToNumber (tdsRate cust) / 100);
          net = gross - tdsAmount;
          cumulative = C + net
      in \<lparr> date = Day eventDate,
                  description = (if paidToday > 0 then ''Deposit''
                                 else if repaidToday > 0 then ''Repayment''
                                 else ''Interest Period''),
                  paid = paidToday, repaid = repaidToday, principal = runningPrincipal,
                  interest = gross, tds = tdsAmount, netInterest = net,
                  cumulativeInterest = cumulative \<rparr>)"

definition shouldCapitalize :: "customer \<Rightarrow> instant \<Rightarrow> instant \<Rightarrow> rat \<Rightarrow> bool" where
  "shouldCapitalize cust startDate eventDate cumulative =
     (isSameDay eventDate (endOfQuarter eventDate)
      \<and> (isAfter eventDate startDate \<or> isSameDay eventDate startDate)
      \<and> interestMethod cust = ''Compound'' \<and> cumulative > 0)"

definition cap_row :: "ledger_row \<Rightarrow> ledger_row" where
  "cap_row r = \<lparr> date = date r, description = ''Quarterly Interest Capitalized'',
                 paid = 0, repaid = 0, principal = principal r + cumulativeInterest r,
                 interest = 0, tds = 0, netInterest = 0,
                 cumulativeInterest = cumulativeInterest r \<rparr>"

definition ledger_adj :: "ledger_row \<Rightarrow> ledger_row \<Rightarrow> bool" where
  "ledger_adj r1 r2 =
     (if is_cap r2
      then \<not> is_cap r1 \<and> date r2 = date r1
           \<and> principal r2 = principal r1 + cumulativeInterest r1
           \<and> cumulativeInterest r2 = cumulativeInterest r1 \<and> 0 < cumulativeInterest r1
      else date r1 < date r2
           \<and> cumulativeInterest r2
               = (if is_cap r1 then 0 else cumulativeInterest r1) + netInterest r2)"

subsection \<open>Example inputs\<close>

text \<open>
  An account opened on 2023-04-01 at 12 percent with 10 percent TDS and no end date, and
  a single deposit of 100000 on the opening day.
\<close>

definition example_terms :: customer where
  "example_terms = \<lparr> iclStartDate = Some (dateString 2023 4 1), iclEndDate = None,
       interestMethod = ''Compound'', interestRate = Number 12, tdsRate = Number 10 \<rparr>"

definition example_deposit :: "transaction list" where
  "example_deposit = [\<lparr> tx_date = dateString 2023 4 1, tx_paid = 100000, tx_repaid = 0 \<rparr>]"

text \<open>The clock at midnight of 2023-07-01 and of 2023-10-01.\<close>

definition clock_jul :: instant where
  "clock_jul = dateString 2023 7 1 * msPerDay"

definition clock_oct :: instant where
  "clock_oct = dateString 2023 10 1 * msPerDay"

text \<open>
  The same account with simple interest, with the rate field of the form emptied, with
  the rate 0 typed into the form, and with no start date.
\<close>

definition simple_terms :: customer where
  "simple_terms = example_terms \<lparr> interestMethod := ''Simple'' \<rparr>"

definition empty_rate_terms :: customer where
  "empty_rate_terms = example_terms \<lparr> interestRate := EmptyString \<rparr>"

definition zero_string_terms :: customer where
  "zero_string_terms = example_terms \<lparr> interestRate := NumericString 0 \<rparr>"

definition no_start_terms :: customer where
  "no_start_terms = example_terms \<lparr> iclStartDate := None \<rparr>"

text \<open>
  The account closed on 2023-05-01 with a single deposit on 2023-06-01, after the end
  date, and the account closed on 2023-12-31.
\<close>

definition closed_may_terms :: customer where
  "closed_may_terms = example_terms \<lparr> iclEndDate := Some (dateString 2023 5 1) \<rparr>"

definition june_deposit :: "transaction list" where
  "june_deposit = [\<lparr> tx_date = dateString 2023 6 1, tx_paid = 100000, tx_repaid = 0 \<rparr>]"

definition closed_terms :: customer where
  "closed_terms = example_terms \<lparr> iclEndDate := Some (dateString 2023 12 31) \<rparr>"

text \<open>
  Terms with a negative rate, a negative TDS rate and an end date before the start
  date, and a deposit on 2023-02-01.
\<close>

definition malformed_terms :: customer where
  "malformed_terms = \<lparr> iclStartDate = Some (dateString 2023 4 1),
       iclEndDate = Some (dateString 2023 3 1),
       interestMethod = ''Compound'', interestRate = NumericString (- 12),
       tdsRate = NumericString (- 10) \<rparr>"

definition february_deposit :: "transaction list" where
  "february_deposit = [\<lparr> tx_date = dateString 2023 2 1, tx_paid = 100000, tx_repaid = 0 \<rparr>]"

text \<open>A repayment of 1000 on the opening day of an account that holds nothing, closed on 2023-05-01.\<close>

definition may_terms :: customer where
  "may_terms = simple_terms \<lparr> iclEndDate := Some (dateString 2023 5 1) \<rparr>"

definition over_repayment :: "transaction list" where
  "over_repayment = [\<lparr> tx_date = dateString 2023 4 1, tx_paid = 0, tx_repaid = 1000 \<rparr>]"

section \<open>Properties of the engine\<close>

subsection \<open>One iteration and the loop\<close>

lemma event_row_sel:
  "date (event_row cust txs e nx P C) = Day e"
  "cumulativeInterest (event_row cust txs e nx P C) = C + netInterest (event_row cust txs e nx P C)"
  "netInterest (event_row cust txs e nx P C) =
     interest (event_row cust txs e nx P C) - tds (event_row cust txs e nx P C)"
  "tds (event_row cust txs e nx P C)
     = interest (event_row cust txs e nx P C) * (ToNumber (tdsRate cust) / 100)"
  "interest (event_row cust txs e nx P C) =
     calculateSimpleInterest (principal (event_row cust txs e nx P C))
       (ToNumber (interestRate cust))
       (case nx of Some n \<Rightarrow> differenceInDays n e | None \<Rightarrow> 1) (getYear e)"
  "\<not> is_cap (event_row cust txs e nx P C)"
  by (simp_all add: event_row_def Let_def is_cap_def)

lemma ledger_step_eq:
  "ledger_step cust txs s e nx P C =
     (if shouldCapitalize cust s e (cumulativeInterest (event_row cust txs e nx P C))
      then ([event_row cust txs e nx P C, cap_row (event_row cust txs e nx P C)],
            principal (event_row cust txs e nx P C)
              + cumulativeInterest (event_row cust txs e nx P C), 0)
      else ([event_row cust txs e nx P C], principal (event_row cust txs e nx P C),
            cumulativeInterest (event_row cust txs e nx P C)))"
  unfolding ledger_step_def event_row_def shouldCapitalize_def cap_row_def Let_def
  by simp

lemma successively_nth:
  "successively R xs \<Longrightarrow> Suc i < length xs \<Longrightarrow> R (xs ! i) (xs ! Suc i)"
proof (induction xs arbitrary: i)
  case Nil
  then show ?case by simp
next
  case (Cons x xs)
  show ?case
  proof (cases i)
    case 0
    with Cons.prems show ?thesis by (cases xs) simp_all
  next
    case (Suc j)
    with Cons.prems have "successively R xs" "Suc j < length xs"
      by (auto simp: successively_Cons)
    with Cons.IH [of j] Suc show ?thesis by simp
  qed
qed

lemma cap_row_sel:
  "is_cap (cap_row r)" "date (cap_row r) = date r"
  "principal (cap_row r) = principal r + cumulativeInterest r"
  "cumulativeInterest (cap_row r) = cumulativeInterest r"
  "paid (cap_row r) = 0" "repaid (cap_row r) = 0" "interest (cap_row r) = 0"
  "tds (cap_row r) = 0" "netInterest (cap_row r) = 0"
  by (simp_all add: cap_row_def is_cap_def)

lemma ledger_loop_Cons:
  "ledger_loop cust txs s (e # rest) P C =
     (let r = event_row cust txs e (case rest of [] \<Rightarrow> None | n # _ \<Rightarrow> Some n) P C
      in if shouldCapitalize cust s e (cumulativeInterest r)
         then r # cap_row r # ledger_loop cust txs s rest (principal r + cumulativeInterest r) 0
         else r # ledger_loop cust txs s rest (principal r) (cumulativeInterest r))"
  by (simp add: ledger_step_eq Let_def)

declare ledger_loop.simps(2) [simp del]

lemma ledger_loop_hd:
  "ledger_loop cust txs s (e # rest) P C \<noteq> [] \<and>
   hd (ledger_loop cust txs s (e # rest) P C)
     = event_row cust txs e (case rest of [] \<Rightarrow> None | n # _ \<Rightarrow> Some n) P C"
  by (simp add: ledger_loop_Cons Let_def)

lemma ledger_loop_adj:
  "sorted_wrt (<) (map Day dates) \<Longrightarrow> successively ledger_adj (ledger_loop cust txs s dates P C)"
proof (induction dates arbitrary: P C)
  case Nil
  then show ?case by simp
next
  case (Cons e rest)
  define r where "r = event_row cust txs e (case rest of [] \<Rightarrow> None | n # _ \<Rightarrow> Some n) P C"
  have rest_sorted: "sorted_wrt (<) (map Day rest)" using Cons.prems by simp
  have IH: "successively ledger_adj (ledger_loop cust txs s rest P' C')" for P' C'
    by (rule Cons.IH [OF rest_sorted])
  have r: "date r = Day e" "\<not> is_cap r" by (simp_all add: r_def event_row_sel)
  have next_row: "ledger_adj x (hd (ledger_loop cust txs s rest P' C'))"
    if "rest \<noteq> []" "date x = Day e" "C' = (if is_cap x then 0 else cumulativeInterest x)"
    for x P' C'
  proof -
    from that(1) obtain n rest' where rest: "rest = n # rest'" by (cases rest) auto
    have "Day e < Day n" using Cons.prems rest by simp
    then show ?thesis unfolding rest using that(2,3)
      by (simp add: ledger_loop_hd ledger_adj_def event_row_sel)
  qed
  show ?case
  proof (cases "shouldCapitalize cust s e (cumulativeInterest r)")
    case True
    then have pos: "0 < cumulativeInterest r" by (simp add: shouldCapitalize_def)
    have eq: "ledger_loop cust txs s (e # rest) P C =
        r # cap_row r # ledger_loop cust txs s rest (principal r + cumulativeInterest r) 0"
      using True by (simp add: ledger_loop_Cons r_def [symmetric] Let_def)
    have a1: "ledger_adj r (cap_row r)" using r pos by (simp add: ledger_adj_def cap_row_sel)
    have a2: "ledger_loop cust txs s rest (principal r + cumulativeInterest r) 0 \<noteq> [] \<Longrightarrow>
        ledger_adj (cap_row r) (hd (ledger_loop cust txs s rest (principal r + cumulativeInterest r) 0))"
      using next_row [of "cap_row r" 0] r by (cases rest) (simp_all add: cap_row_sel)
    show ?thesis unfolding eq using a1 a2 IH
      by (auto simp: successively_Cons)
  next
    case False
    have eq: "ledger_loop cust txs s (e # rest) P C =
        r # ledger_loop cust txs s rest (principal r) (cumulativeInterest r)"
      using False by (simp add: ledger_loop_Cons r_def [symmetric] Let_def)
    have a2: "ledger_loop cust txs s rest (principal r) (cumulativeInterest r) \<noteq> [] \<Longrightarrow>
        ledger_adj r (hd (ledger_loop cust txs s rest (principal r) (cumulativeInterest r)))"
      using next_row [of r "cumulativeInterest r"] r by (cases rest) simp_all
    show ?thesis unfolding eq using a2 IH
      by (auto simp: successively_Cons)
  qed
qed

lemma ledger_loop_rows:
  "x \<in> set (ledger_loop cust txs s dates P C) \<Longrightarrow>
   \<exists>e nx P' C'. e \<in> set dates \<and>
     (x = event_row cust txs e nx P' C'
      \<or> x = cap_row (event_row cust txs e nx P' C')
        \<and> shouldCapitalize cust s e (cumulativeInterest (event_row cust txs e nx P' C')))"
proof (induction dates arbitrary: P C)
  case Nil
  then show ?case by simp
next
  case (Cons e rest)
  define r where "r = event_row cust txs e (case rest of [] \<Rightarrow> None | n # _ \<Rightarrow> Some n) P C"
  from Cons.prems consider "x = r"
    | "x = cap_row r" "shouldCapitalize cust s e (cumulativeInterest r)"
    | P' C' where "x \<in> set (ledger_loop cust txs s rest P' C')"
    by (auto simp: ledger_loop_Cons r_def [symmetric] Let_def split: if_splits)
  then show ?case
  proof cases
    case 1
    then show ?thesis unfolding r_def by (intro exI [of _ e]) auto
  next
    case 2
    then show ?thesis unfolding r_def by (intro exI [of _ e]) auto
  next
    case 3
    from Cons.IH [OF 3] show ?thesis by auto
  qed
qed

lemma ledger_loop_first:
  "ledger_loop cust txs s dates P C \<noteq> [] \<Longrightarrow>
   cumulativeInterest (ledger_loop cust txs s dates P C ! 0)
     = C + netInterest (ledger_loop cust txs s dates P C ! 0)"
  by (cases dates) (simp_all add: ledger_loop_Cons Let_def event_row_sel)

lemma ledger_loop_empty: "ledger_loop cust txs s dates P C = [] \<longleftrightarrow> dates = []"
  by (cases dates) (simp_all add: ledger_loop_Cons Let_def)

subsection \<open>The calendar at known dates\<close>

text \<open>
  Day numbers, years, months and quarter ends of the model at dates whose values are
  known: 2000-03-01 is day 11017 and 2023-04-01 is day 19448 after 1970-01-01.
\<close>

lemma calendar_examples:
  "dateString 1970 1 1 = 0"
  "dateString 2000 3 1 = 11017"
  "dateString 2023 4 1 = 19448"
  "dateString 2024 12 31 = 20088"
  "getYear (dateString 2024 12 31 * msPerDay + 5) = 2024"
  "getMonth (dateString 2024 12 31 * msPerDay + 5) = 11"
  "getYear (- 1) = 1969"
  "getMonth (- 1) = 11"
  "getMonth (dateString 2024 2 29 * msPerDay) = 1"
  "getMonth (dateString 2023 3 1 * msPerDay) = 2"
  by code_simp+

lemma endOfQuarter_examples:
  "endOfQuarter (dateString 2023 7 1 * msPerDay) = dateString 2023 9 30 * msPerDay + 86399999"
  "Day (endOfQuarter (dateString 2024 2 29 * msPerDay)) = dateString 2024 3 31"
  "Day (endOfQuarter (dateString 2023 4 1 * msPerDay)) = dateString 2023 6 30"
  "Day (endOfQuarter (dateString 2023 10 1 * msPerDay)) = dateString 2023 12 31"
  "endOfQuarter (dateString 2023 12 31 * msPerDay + 5) = dateString 2024 1 1 * msPerDay - 1"
  "differenceInDays (dateString 2024 3 1 * msPerDay) (dateString 2024 2 1 * msPerDay) = 29"
  by code_simp+

subsection \<open>The timeline\<close>

lemma Day_mult [simp]: "Day (d * msPerDay) = d"
  by (simp add: Day_def msPerDay_def)

lemma startOfDay_mult [simp]: "startOfDay (d * msPerDay) = d * msPerDay"
  by (simp add: startOfDay_def)

lemma parseDate_simps [simp]:
  "parseDate None = None" "parseDate (Some d) = Some (d * msPerDay)"
  by (simp_all add: parseDate_def)

lemma set_add_props:
  "set (set_add s x) = insert x (set s)" "distinct s \<Longrightarrow> distinct (set_add s x)"
  by (auto simp: set_add_def)

lemma fold_set_add:
  "distinct s \<Longrightarrow> distinct (fold (\<lambda>t s. set_add s (f t)) ts s)"
  "set (fold (\<lambda>t s. set_add s (f t)) ts s) = set s \<union> f ` set ts"
  by (induction ts arbitrary: s) (auto simp: set_add_props)

lemma quarterEnds_props:
  "distinct ev \<Longrightarrow> distinct (quarterEnds f l c ev)"
  "set ev \<subseteq> set (quarterEnds f l c ev)"
proof (induction f l c ev rule: quarterEnds.induct)
  case (1 f l c ev)
  {
    case 1
    then show ?case using "1.IH"(1) by (subst quarterEnds.simps) (simp add: set_add_props)
  next
    case 2
    then show ?case using "1.IH"(2) by (subst quarterEnds.simps) (auto simp: set_add_props)
  }
qed

lemma uniqueSortedDates_sorted:
  "sorted_wrt (<) (map Day (uniqueSortedDates now cust stx))"
proof -
  obtain ev where ev: "uniqueSortedDates now cust stx = sort (map (\<lambda>d. d * msPerDay) ev)"
    and dist: "distinct ev"
  proof
    show "uniqueSortedDates now cust stx = sort (map (\<lambda>d. d * msPerDay)
        (case iclEndDate cust of
           Some d \<Rightarrow> set_add (quarterEnds (txDate (hd stx))
               (case parseDate (iclEndDate cust) of Some e \<Rightarrow> e | None \<Rightarrow> startOfDay now)
               (txDate (hd stx)) (fold (\<lambda>t s. set_add s (tx_date t)) stx [])) d
         | None \<Rightarrow> quarterEnds (txDate (hd stx))
               (case parseDate (iclEndDate cust) of Some e \<Rightarrow> e | None \<Rightarrow> startOfDay now)
               (txDate (hd stx)) (fold (\<lambda>t s. set_add s (tx_date t)) stx [])))"
      by (simp add: uniqueSortedDates_def Let_def split: option.splits)
    show "distinct (case iclEndDate cust of
           Some d \<Rightarrow> set_add (quarterEnds (txDate (hd stx))
               (case parseDate (iclEndDate cust) of Some e \<Rightarrow> e | None \<Rightarrow> startOfDay now)
               (txDate (hd stx)) (fold (\<lambda>t s. set_add s (tx_date t)) stx [])) d
         | None \<Rightarrow> quarterEnds (txDate (hd stx))
               (case parseDate (iclEndDate cust) of Some e \<Rightarrow> e | None \<Rightarrow> startOfDay now)
               (txDate (hd stx)) (fold (\<lambda>t s. set_add s (tx_date t)) stx []))"
      by (simp add: set_add_props quarterEnds_props fold_set_add split: option.splits)
  qed
  have inj: "inj_on (\<lambda>d. d * msPerDay) (set ev)"
    by (rule inj_onI) (simp add: msPerDay_def)
  have "sorted (sort (map (\<lambda>d. d * msPerDay) ev))" by simp
  moreover have "distinct (sort (map (\<lambda>d. d * msPerDay) ev))"
    using dist inj by (simp add: distinct_map)
  ultimately have strict: "sorted_wrt (<) (sort (map (\<lambda>d. d * msPerDay) ev))"
    by (simp add: strict_sorted_iff)
  have "sorted_wrt (\<lambda>x y. Day x < Day y) (sort (map (\<lambda>d. d * msPerDay) ev))"
  proof (rule sorted_wrt_mono_rel [OF _ strict])
    fix x y
    assume "x \<in> set (sort (map (\<lambda>d. d * msPerDay) ev))"
      "y \<in> set (sort (map (\<lambda>d. d * msPerDay) ev))" "x < y"
    then obtain a b where ab: "x = a * msPerDay" "y = b * msPerDay" "a * msPerDay < b * msPerDay"
      by auto
    from ab(3) have "a < b" by (simp add: msPerDay_def)
    then show "Day x < Day y" by (simp add: ab)
  qed
  then show ?thesis by (simp add: ev sorted_wrt_map)
qed

lemma uniqueSortedDates_nonempty:
  assumes "stx \<noteq> []"
  shows "uniqueSortedDates now cust stx \<noteq> []"
proof -
  obtain t rest where stx: "stx = t # rest" using assms by (cases stx) auto
  have "tx_date t \<in> set (fold (\<lambda>t s. set_add s (tx_date t)) stx [])"
    unfolding fold_set_add(2) stx by simp
  then have "tx_date t \<in> set (quarterEnds f l c (fold (\<lambda>t s. set_add s (tx_date t)) stx []))"
    for f l c using quarterEnds_props(2) by blast
  then have "tx_date t * msPerDay \<in> set (uniqueSortedDates now cust stx)"
    by (auto simp: uniqueSortedDates_def Let_def set_add_props split: option.splits)
  then show ?thesis by auto
qed

lemma generateLedger_empty_iff:
  "generateLedger now cust txs = [] \<longleftrightarrow>
     iclStartDate cust = None \<or> \<not> truthy (interestRate cust)
     \<or> sortedTransactions cust txs = []"
proof -
  have "sortedTransactions cust [] = []" by (simp add: sortedTransactions_def)
  then show ?thesis
    using uniqueSortedDates_nonempty [of "sortedTransactions cust txs" now cust]
    by (cases "iclStartDate cust") (auto simp: generateLedger_def ledger_loop_empty)
qed

lemma sortedTransactions_empty_iff:
  "sortedTransactions cust txs = [] \<longleftrightarrow> filter (notAfterEnd cust) txs = []"
proof -
  have "length (sortedTransactions cust txs) = length (filter (notAfterEnd cust) txs)"
    by (simp add: sortedTransactions_def)
  then show ?thesis by (metis length_0_conv)
qed

subsection \<open>The ledger\<close>

lemma event_row_description:
  "description (event_row cust txs e nx P C) \<in> {''Deposit'', ''Repayment'', ''Interest Period''}"
  by (simp add: event_row_def Let_def)

lemma generateLedger_cases:
  obtains "generateLedger now cust txs = []"
  | s where "parseDate (iclStartDate cust) = Some s"
      "generateLedger now cust txs =
         ledger_loop cust (sortedTransactions cust txs) s
           (uniqueSortedDates now cust (sortedTransactions cust txs)) 0 0"
proof -
  have "generateLedger now cust txs = [] \<or>
      (\<exists>s. parseDate (iclStartDate cust) = Some s \<and>
         generateLedger now cust txs =
           ledger_loop cust (sortedTransactions cust txs) s
             (uniqueSortedDates now cust (sortedTransactions cust txs)) 0 0)"
    by (simp add: generateLedger_def split: option.splits)
  with that show ?thesis by blast
qed

lemma generateLedger_adj_nth:
  assumes "Suc i < length (generateLedger now cust txs)"
  shows "ledger_adj (generateLedger now cust txs ! i) (generateLedger now cust txs ! Suc i)"
proof (cases rule: generateLedger_cases [of now cust txs])
  case 1
  with assms show ?thesis by simp
next
  case (2 s)
  have "successively ledger_adj (generateLedger now cust txs)"
    unfolding 2(2) by (rule ledger_loop_adj [OF uniqueSortedDates_sorted])
  then show ?thesis using assms by (rule successively_nth)
qed

lemma generateLedger_first:
  assumes "generateLedger now cust txs \<noteq> []"
  shows "cumulativeInterest (generateLedger now cust txs ! 0)
           = netInterest (generateLedger now cust txs ! 0)"
    and "\<not> is_cap (generateLedger now cust txs ! 0)"
proof -
  from assms obtain s where eq: "generateLedger now cust txs =
         ledger_loop cust (sortedTransactions cust txs) s
           (uniqueSortedDates now cust (sortedTransactions cust txs)) 0 0"
    by (cases rule: generateLedger_cases [of now cust txs]) auto
  with assms obtain e rest
    where d: "uniqueSortedDates now cust (sortedTransactions cust txs) = e # rest"
    by (cases "uniqueSortedDates now cust (sortedTransactions cust txs)") auto
  show "cumulativeInterest (generateLedger now cust txs ! 0)
           = netInterest (generateLedger now cust txs ! 0)"
    unfolding eq d by (simp add: ledger_loop_Cons Let_def event_row_sel)
  show "\<not> is_cap (generateLedger now cust txs ! 0)"
    unfolding eq d by (simp add: ledger_loop_Cons Let_def event_row_sel)
qed

lemma generateLedger_rows:
  assumes "x \<in> set (generateLedger now cust txs)"
  obtains s e nx P C where "parseDate (iclStartDate cust) = Some s"
    and "x = event_row cust (sortedTransactions cust txs) e nx P C
         \<or> x = cap_row (event_row cust (sortedTransactions cust txs) e nx P C)
           \<and> shouldCapitalize cust s e
               (cumulativeInterest (event_row cust (sortedTransactions cust txs) e nx P C))"
proof (cases rule: generateLedger_cases [of now cust txs])
  case 1
  with assms show ?thesis by simp
next
  case (2 s)
  from assms ledger_loop_rows [of x cust "sortedTransactions cust txs" s
      "uniqueSortedDates now cust (sortedTransactions cust txs)" 0 0]
  obtain e nx P C where
    "x = event_row cust (sortedTransactions cust txs) e nx P C
         \<or> x = cap_row (event_row cust (sortedTransactions cust txs) e nx P C)
           \<and> shouldCapitalize cust s e
               (cumulativeInterest (event_row cust (sortedTransactions cust txs) e nx P C))"
    unfolding 2(2) by blast
  with 2(1) that show ?thesis by blast
qed

lemma cap_row_origin:
  assumes "x \<in> set (generateLedger now cust txs)" "is_cap x"
  obtains s e where "parseDate (iclStartDate cust) = Some s" "date x = Day e"
    "isSameDay e (endOfQuarter e)" "isAfter e s \<or> isSameDay e s"
    "interestMethod cust = ''Compound''"
proof -
  from assms(1) obtain s e nx P C where s: "parseDate (iclStartDate cust) = Some s"
    and x: "x = event_row cust (sortedTransactions cust txs) e nx P C
         \<or> x = cap_row (event_row cust (sortedTransactions cust txs) e nx P C)
           \<and> shouldCapitalize cust s e
               (cumulativeInterest (event_row cust (sortedTransactions cust txs) e nx P C))"
    by (rule generateLedger_rows)
  from x assms(2) have c: "x = cap_row (event_row cust (sortedTransactions cust txs) e nx P C)"
    "shouldCapitalize cust s e
       (cumulativeInterest (event_row cust (sortedTransactions cust txs) e nx P C))"
    by (auto simp: event_row_sel)
  from c(1) have "date x = Day e" by (simp add: cap_row_sel event_row_sel)
  with s c(2) that show ?thesis by (simp add: shouldCapitalize_def)
qed

lemma cap_row_compound:
  assumes "x \<in> set (generateLedger now cust txs)" "is_cap x"
  shows "interestMethod cust = ''Compound''"
  using assms by (rule cap_row_origin)

lemma endOfQuarter_Day: "endOfQuarter (Day t * msPerDay) = endOfQuarter t"
  by (simp add: endOfQuarter_def getMonth_def getYear_def)

lemma isSameDay_iff: "isSameDay a b \<longleftrightarrow> Day a = Day b"
  by (simp add: isSameDay_def startOfDay_def msPerDay_def)

lemma Day_mono: "a \<le> b \<Longrightarrow> Day a \<le> Day b"
  by (simp add: Day_def msPerDay_def zdiv_mono1)

lemma ledger_step_capitalized:
  "is_cap (last (fst (ledger_step cust txs s e nx P C))) \<Longrightarrow>
   snd (snd (ledger_step cust txs s e nx P C)) = 0"
  by (simp add: ledger_step_eq event_row_sel split: if_splits)

lemma calculateSimpleInterest_nonneg:
  "0 \<le> rate \<Longrightarrow> 0 \<le> calculateSimpleInterest p rate days year"
  using getDaysInYear_ge [of year] by (simp add: calculateSimpleInterest_def)

lemma event_row_net_nonneg:
  assumes "0 \<le> ToNumber (interestRate cust)" "0 \<le> ToNumber (tdsRate cust)"
    "ToNumber (tdsRate cust) \<le> 100"
  shows "0 \<le> netInterest (event_row cust txs e nx P C)"
proof -
  define g where "g = interest (event_row cust txs e nx P C)"
  have g: "0 \<le> g"
    unfolding g_def event_row_sel(5) by (rule calculateSimpleInterest_nonneg [OF assms(1)])
  have "netInterest (event_row cust txs e nx P C) = g * (1 - ToNumber (tdsRate cust) / 100)"
    by (simp add: event_row_sel(3,4) g_def algebra_simps)
  moreover have "0 \<le> 1 - ToNumber (tdsRate cust) / 100" using assms(3) by simp
  ultimately show ?thesis using g by simp
qed

lemma fold_add_nonneg:
  fixes a :: rat
  shows "\<forall>t \<in> set ts. 0 \<le> f t \<Longrightarrow> 0 \<le> a \<Longrightarrow> 0 \<le> fold (\<lambda>t acc. acc + f t) ts a"
  by (induction ts arbitrary: a) simp_all

lemma event_row_amounts:
  assumes "\<forall>t \<in> set txs. 0 \<le> tx_paid t \<and> 0 \<le> tx_repaid t"
    and "description (event_row cust txs e nx P C) = ''Interest Period''"
  shows "paid (event_row cust txs e nx P C) = 0 \<and> repaid (event_row cust txs e nx P C) = 0"
proof -
  define on_date where "on_date = filter (\<lambda>t. isSameDay (txDate t) e) txs"
  have "0 \<le> fold (\<lambda>t acc. acc + tx_paid t) on_date 0"
    and "0 \<le> fold (\<lambda>t acc. acc + tx_repaid t) on_date 0"
    using assms(1) by (auto intro!: fold_add_nonneg simp: on_date_def)
  with assms(2) show ?thesis
    by (simp add: event_row_def Let_def on_date_def [symmetric] split: if_splits)
qed

lemma zero_rate_rows:
  assumes "ToNumber (interestRate cust) = 0" "r \<in> set (generateLedger now cust txs)"
  shows "interest r = 0 \<and> tds r = 0 \<and> netInterest r = 0"
proof -
  have ev: "interest (event_row cust txs' e nx P C) = 0 \<and> tds (event_row cust txs' e nx P C) = 0
      \<and> netInterest (event_row cust txs' e nx P C) = 0" for txs' e nx P C
    using assms(1) by (simp add: event_row_sel(3,4,5) calculateSimpleInterest_def)
  from assms(2) obtain s e nx P C where
    "r = event_row cust (sortedTransactions cust txs) e nx P C
       \<or> r = cap_row (event_row cust (sortedTransactions cust txs) e nx P C)
         \<and> shouldCapitalize cust s e
             (cumulativeInterest (event_row cust (sortedTransactions cust txs) e nx P C))"
    by (rule generateLedger_rows)
  then show ?thesis using ev by (auto simp: cap_row_sel)
qed

section \<open>The claims\<close>


subsection \<open>C1: capitalization conservation\<close>

text \<open>
  Claim C1: a row \<^verbatim>\<open>Quarterly Interest Capitalized\<close> is only emitted in compound mode, at
  an event date that is the end of its quarter and not before the start date, when the
  cumulative net interest of the row before it is positive. The principal it records
  is the principal of the row before it plus that row's cumulative net interest, and
  the running cumulative interest is zero after it: the next row's cumulative interest
  is that row's own net interest, and the iteration that pushes the row leaves the loop
  variable at 0. (The row itself shows the amount that was folded into the principal.)
\<close>

theorem C1_capitalization_conservation:
  assumes "i < length (generateLedger now cust txs)"
    and "description (generateLedger now cust txs ! i) = ''Quarterly Interest Capitalized''"
  shows "interestMethod cust = ''Compound''
    \<and> 0 < i
    \<and> description (generateLedger now cust txs ! (i - 1)) \<noteq> ''Quarterly Interest Capitalized''
    \<and> date (generateLedger now cust txs ! (i - 1)) = date (generateLedger now cust txs ! i)
    \<and> principal (generateLedger now cust txs ! i)
        = principal (generateLedger now cust txs ! (i - 1))
          + cumulativeInterest (generateLedger now cust txs ! (i - 1))
    \<and> 0 < cumulativeInterest (generateLedger now cust txs ! (i - 1))
    \<and> isSameDay (date (generateLedger now cust txs ! i) * msPerDay)
         (endOfQuarter (date (generateLedger now cust txs ! i) * msPerDay))
    \<and> (\<exists>d. iclStartDate cust = Some d \<and> d \<le> date (generateLedger now cust txs ! i))
    \<and> (Suc i < length (generateLedger now cust txs) \<longrightarrow>
         cumulativeInterest (generateLedger now cust txs ! Suc i)
           = netInterest (generateLedger now cust txs ! Suc i))
    \<and> (\<forall>txs' s e nx P C.
          description (last (fst (ledger_step cust txs' s e nx P C)))
            = ''Quarterly Interest Capitalized'' \<longrightarrow>
          snd (snd (ledger_step cust txs' s e nx P C)) = 0)"
proof -
  define L where "L = generateLedger now cust txs"
  have cap: "is_cap (L ! i)" using assms(2) by (simp add: is_cap_def L_def)
  have len: "i < length L" using assms(1) by (simp add: L_def)
  then have mem: "L ! i \<in> set L" by simp
  have ne: "L \<noteq> []" using len by auto
  have pos: "0 < i"
  proof (rule ccontr)
    assume "\<not> 0 < i"
    then have "i = 0" by simp
    with cap generateLedger_first(2) [of now cust txs] ne show False by (simp add: L_def)
  qed
  then obtain j where j: "i = Suc j" by (cases i) auto
  have "ledger_adj (L ! j) (L ! Suc j)"
    unfolding L_def using len j by (intro generateLedger_adj_nth) (simp add: L_def)
  with cap j have prev: "\<not> is_cap (L ! j)" "date (L ! i) = date (L ! j)"
    "principal (L ! i) = principal (L ! j) + cumulativeInterest (L ! j)"
    "0 < cumulativeInterest (L ! j)"
    by (simp_all add: ledger_adj_def)
  from mem cap obtain s e where o: "parseDate (iclStartDate cust) = Some s" "date (L ! i) = Day e"
    "isSameDay e (endOfQuarter e)" "isAfter e s \<or> isSameDay e s"
    "interestMethod cust = ''Compound''"
    unfolding L_def by (rule cap_row_origin)
  have "Day (Day e * msPerDay) = Day (endOfQuarter (Day e * msPerDay))"
    unfolding endOfQuarter_Day Day_mult using o(3) by (simp only: isSameDay_iff)
  then have qe: "isSameDay (date (L ! i) * msPerDay) (endOfQuarter (date (L ! i) * msPerDay))"
    unfolding o(2) by (simp only: isSameDay_iff)
  from o(1) obtain d where d: "iclStartDate cust = Some d" "s = d * msPerDay"
    by (cases "iclStartDate cust") auto
  have "Day s \<le> Day e" using o(4) Day_mono [of s e] by (auto simp: isAfter_def isSameDay_iff)
  then have start: "d \<le> date (L ! i)" by (simp add: d(2) o(2))
  have nxt: "cumulativeInterest (L ! Suc i) = netInterest (L ! Suc i)" if "Suc i < length L"
  proof -
    have "ledger_adj (L ! i) (L ! Suc i)"
      unfolding L_def using that by (intro generateLedger_adj_nth) (simp add: L_def)
    with cap show ?thesis by (simp add: ledger_adj_def split: if_splits)
  qed
  have step: "snd (snd (ledger_step cust txs' s e nx P C)) = 0"
    if "description (last (fst (ledger_step cust txs' s e nx P C)))
            = ''Quarterly Interest Capitalized''" for txs' s e nx P C
    using that ledger_step_capitalized [of cust txs' s e nx P C] by (simp add: is_cap_def)
  from o(5) pos prev qe d(1) start nxt step j show ?thesis
    unfolding L_def [symmetric] by (simp add: is_cap_def)
qed

theorem C1_witness:
  "2 < length (generateLedger clock_oct example_terms example_deposit)
   \<and> description (generateLedger clock_oct example_terms example_deposit ! 2)
       = ''Quarterly Interest Capitalized''
   \<and> interestMethod example_terms = ''Compound''
   \<and> principal (generateLedger clock_oct example_terms example_deposit ! 2)
       = principal (generateLedger clock_oct example_terms example_deposit ! 1)
         + cumulativeInterest (generateLedger clock_oct example_terms example_deposit ! 1)
   \<and> 0 < cumulativeInterest (generateLedger clock_oct example_terms example_deposit ! 1)
   \<and> 3 < length (generateLedger clock_oct example_terms example_deposit)
   \<and> cumulativeInterest (generateLedger clock_oct example_terms example_deposit ! 3)
       = netInterest (generateLedger clock_oct example_terms example_deposit ! 3)
   \<and> description (last (fst (ledger_step example_terms example_deposit
         (dateString 2023 4 1 * msPerDay) (dateString 2023 6 30 * msPerDay) None 100000 2000)))
       = ''Quarterly Interest Capitalized''
   \<and> snd (snd (ledger_step example_terms example_deposit
         (dateString 2023 4 1 * msPerDay) (dateString 2023 6 30 * msPerDay) None 100000 2000)) = 0"
proof -
  have h1: "2 < length (generateLedger clock_oct example_terms example_deposit)"
    by code_simp
  have h2: "description (generateLedger clock_oct example_terms example_deposit ! 2)
       = ''Quarterly Interest Capitalized''"
    by code_simp
  have h3: "3 < length (generateLedger clock_oct example_terms example_deposit)"
    by code_simp
  have h4: "description (last (fst (ledger_step example_terms example_deposit
         (dateString 2023 4 1 * msPerDay) (dateString 2023 6 30 * msPerDay) None 100000 2000)))
       = ''Quarterly Interest Capitalized''"
    by code_simp
  from C1_capitalization_conservation [OF h1 h2] h1 h2 h3 h4 show ?thesis
    by simp
qed

subsection \<open>C2: gross interest of a period\<close>

text \<open>
  The formula is guarded: \<^verbatim>\<open>calculateSimpleInterest\<close> returns 0 when the principal is not
  positive. After a repayment of 1000 into an empty account the running principal is
  -1000 and the row of the 30-day period records interest 0, not -1000 * 12 * 30 / 36500.
\<close>

theorem C2_counterexample:
  "principal (hd (generateLedger clock_jul may_terms over_repayment)) = - 1000
   \<and> interest (hd (generateLedger clock_jul may_terms over_repayment)) = 0
   \<and> date (hd (generateLedger clock_jul may_terms over_repayment)) = dateString 2023 4 1
   \<and> date (generateLedger clock_jul may_terms over_repayment ! 1) = dateString 2023 5 1
   \<and> interest (hd (generateLedger clock_jul may_terms over_repayment))
       \<noteq> principal (hd (generateLedger clock_jul may_terms over_repayment))
           * ToNumber (interestRate may_terms)
           * of_int (differenceInDays (dateString 2023 5 1 * msPerDay)
                       (dateString 2023 4 1 * msPerDay))
           / (100 * of_int (getDaysInYear (getYear (dateString 2023 4 1 * msPerDay))))"
  by code_simp

text \<open>
  Claim C2, as the code has it: in every iteration of the accrual loop, for the event
  date \<open>e\<close>, the running principal \<open>P\<close> recorded on the row, the rate \<open>r\<close> and the
  period of \<open>d\<close> days (the days to the next event date, 1 at the last one), the gross
  interest is \<open>P * r * d / (100 * daysInYear (year of e))\<close> when \<open>P\<close> and \<open>d\<close> are positive
  and 0 otherwise; \<open>daysInYear y\<close> is 366 when \<open>y\<close> is divisible by 4 and not by 100 unless
  by 400, and 365 otherwise; 100000 at 12 percent over 30 days gives 986.30 to two
  decimals in 2023 and 983.61 in 2024.
\<close>

theorem C2_gross_interest_of_a_period:
  "interest (hd (ledger_loop cust txs s (e # rest) P C)) =
     (if 0 < principal (hd (ledger_loop cust txs s (e # rest) P C))
         \<and> 0 < (case rest of [] \<Rightarrow> 1 | n # _ \<Rightarrow> differenceInDays n e)
      then principal (hd (ledger_loop cust txs s (e # rest) P C))
             * ToNumber (interestRate cust)
             * of_int (case rest of [] \<Rightarrow> 1 | n # _ \<Rightarrow> differenceInDays n e)
             / (100 * of_int (getDaysInYear (getYear e)))
      else 0)
   \<and> getDaysInYear y
       = (if y mod 4 = 0 \<and> (y mod 100 \<noteq> 0 \<or> y mod 400 = 0) then 366 else 365)
   \<and> getDaysInYear 2023 = 365
   \<and> 986295 / 1000 \<le> calculateSimpleInterest 100000 12 30 2023
   \<and> calculateSimpleInterest 100000 12 30 2023 < 986305 / 1000
   \<and> getDaysInYear 2024 = 366
   \<and> 983605 / 1000 \<le> calculateSimpleInterest 100000 12 30 2024
   \<and> calculateSimpleInterest 100000 12 30 2024 < 983615 / 1000"
proof -
  have a: "interest (hd (ledger_loop cust txs s (e # rest) P C)) =
     (if 0 < principal (hd (ledger_loop cust txs s (e # rest) P C))
         \<and> 0 < (case rest of [] \<Rightarrow> 1 | n # _ \<Rightarrow> differenceInDays n e)
      then principal (hd (ledger_loop cust txs s (e # rest) P C))
             * ToNumber (interestRate cust)
             * of_int (case rest of [] \<Rightarrow> 1 | n # _ \<Rightarrow> differenceInDays n e)
             / (100 * of_int (getDaysInYear (getYear e)))
      else 0)"
  proof -
    have "(case (case rest of [] \<Rightarrow> None | n # _ \<Rightarrow> Some n) of
             Some n \<Rightarrow> differenceInDays n e | None \<Rightarrow> 1)
        = (case rest of [] \<Rightarrow> 1 | n # _ \<Rightarrow> differenceInDays n e)"
      by (cases rest) simp_all
    then show ?thesis
      by (simp add: ledger_loop_hd event_row_sel(5) calculateSimpleInterest_def)
  qed
  have d4: "(4::int) dvd 400" by simp
  have "y mod 400 = 0 \<Longrightarrow> y mod 4 = 0"
    using dvd_trans [OF d4, of y] by (simp add: mod_eq_0_iff_dvd)
  then have b: "getDaysInYear y
       = (if y mod 4 = 0 \<and> (y mod 100 \<noteq> 0 \<or> y mod 400 = 0) then 366 else 365)"
    by (auto simp: getDaysInYear_def)
  have c: "getDaysInYear 2023 = 365" "getDaysInYear 2024 = 366"
    by (simp_all add: getDaysInYear_def)
  have d: "986295 / 1000 \<le> calculateSimpleInterest 100000 12 30 2023"
    "calculateSimpleInterest 100000 12 30 2023 < 986305 / 1000"
    "983605 / 1000 \<le> calculateSimpleInterest 100000 12 30 2024"
    "calculateSimpleInterest 100000 12 30 2024 < 983615 / 1000"
    by (simp_all add: calculateSimpleInterest_def c)
  from a b c d show ?thesis by blast
qed

theorem C2_witness:
  "0 < principal (hd (ledger_loop example_terms example_deposit (dateString 2023 4 1 * msPerDay)
         [dateString 2023 4 1 * msPerDay, dateString 2023 6 30 * msPerDay] 0 0))
   \<and> differenceInDays (dateString 2023 6 30 * msPerDay) (dateString 2023 4 1 * msPerDay) = 90
   \<and> getYear (dateString 2023 4 1 * msPerDay) = 2023
   \<and> interest (hd (ledger_loop example_terms example_deposit (dateString 2023 4 1 * msPerDay)
         [dateString 2023 4 1 * msPerDay, dateString 2023 6 30 * msPerDay] 0 0))
       = 100000 * 12 * 90 / (100 * 365)
   \<and> 2024 mod 100 \<noteq> (0::int)
   \<and> getDaysInYear 2024 = 366"
proof -
  have h1: "principal (hd (ledger_loop example_terms example_deposit
         (dateString 2023 4 1 * msPerDay)
         [dateString 2023 4 1 * msPerDay, dateString 2023 6 30 * msPerDay] 0 0)) = 100000"
    by code_simp
  have h2: "differenceInDays (dateString 2023 6 30 * msPerDay) (dateString 2023 4 1 * msPerDay)
      = 90"
    by code_simp
  have h3: "getYear (dateString 2023 4 1 * msPerDay) = 2023"
    by code_simp
  have h4: "ToNumber (interestRate example_terms) = 12" by (simp add: example_terms_def)
  from C2_gross_interest_of_a_period [of example_terms example_deposit
      "dateString 2023 4 1 * msPerDay" "dateString 2023 4 1 * msPerDay"
      "[dateString 2023 6 30 * msPerDay]" 0 0 2024]
    h1 h2 h3 h4
  show ?thesis by simp
qed

subsection \<open>C3: reproducibility and the clock\<close>

text \<open>
  The engine takes no \<open>asOf\<close> argument: when the end date is absent, line 58 reads the
  clock inside the algorithm. With the account and the deposit of the example, the
  ledger computed on 2023-07-01 differs from the one computed on 2023-10-01.
\<close>

theorem C3_counterexample:
  "iclEndDate example_terms = None
   \<and> generateLedger clock_jul example_terms example_deposit
       \<noteq> generateLedger clock_oct example_terms example_deposit"
proof -
  have "length (generateLedger clock_jul example_terms example_deposit) = 3" by code_simp
  moreover have "length (generateLedger clock_oct example_terms example_deposit) = 5" by code_simp
  ultimately have "generateLedger clock_jul example_terms example_deposit
      \<noteq> generateLedger clock_oct example_terms example_deposit"
    by auto
  then show ?thesis by (simp add: example_terms_def)
qed

text \<open>
  Claim C3, as the code has it: for a fixed account, transaction list and clock reading
  the engine returns one ledger; the ledger does not depend on the clock when the end
  date is present, and depends only on the calendar day of the clock when it is absent.
\<close>

theorem C3_ledger_depends_on_clock_day_only_without_end_date:
  "iclEndDate cust \<noteq> None \<or> Day now1 = Day now2 \<Longrightarrow>
   generateLedger now1 cust txs = generateLedger now2 cust txs"
  by (auto simp: generateLedger_def uniqueSortedDates_def startOfDay_def Let_def
      split: option.splits)

theorem C3_witness:
  "iclEndDate closed_terms = Some (dateString 2023 12 31)
   \<and> clock_jul \<noteq> clock_oct
   \<and> generateLedger clock_jul closed_terms example_deposit
       = generateLedger clock_oct closed_terms example_deposit"
proof -
  have e: "iclEndDate closed_terms = Some (dateString 2023 12 31)"
    by (simp add: closed_terms_def)
  then have h: "iclEndDate closed_terms \<noteq> None \<or> Day clock_jul = Day clock_oct"
    by simp
  have n: "clock_jul \<noteq> clock_oct" by code_simp
  from C3_ledger_depends_on_clock_day_only_without_end_date
    [OF h, of example_deposit] e n
  show ?thesis by simp
qed

subsection \<open>C4: no transaction left after the filter\<close>

text \<open>
  The engine has no error signal. For an account that runs from 2023-04-01 to
  2023-05-01 and a single deposit on 2023-06-01, after the end date, it returns the
  empty array, which is also what it returns for an account without a start date whose
  transaction is kept by the filter.
\<close>

theorem C4_counterexample:
  "filter (notAfterEnd closed_may_terms) june_deposit = []
   \<and> generateLedger clock_jul closed_may_terms june_deposit = []
   \<and> filter (notAfterEnd no_start_terms) example_deposit \<noteq> []
   \<and> generateLedger clock_jul no_start_terms example_deposit
       = generateLedger clock_jul closed_may_terms june_deposit"
  by code_simp

text \<open>
  Claim C4, as the code has it: when the filter leaves no transaction the engine returns
  the empty ledger; it returns the empty ledger exactly when the start date is missing,
  the rate is falsy (the number 0 or the empty string) or the filter leaves no
  transaction, so a run that passes these checks never returns an empty ledger.
\<close>

theorem C4_empty_timeline_returns_empty_ledger:
  "(filter (notAfterEnd cust) txs = [] \<longrightarrow> generateLedger now cust txs = [])
   \<and> (generateLedger now cust txs = [] \<longleftrightarrow>
        iclStartDate cust = None \<or> \<not> truthy (interestRate cust)
        \<or> filter (notAfterEnd cust) txs = [])"
  by (simp add: generateLedger_empty_iff sortedTransactions_empty_iff)

theorem C4_witness:
  "filter (notAfterEnd closed_may_terms) june_deposit = []
   \<and> generateLedger clock_jul closed_may_terms june_deposit = []"
proof -
  have h: "filter (notAfterEnd closed_may_terms) june_deposit = []" by code_simp
  from C4_empty_timeline_returns_empty_ledger [of closed_may_terms june_deposit clock_jul] h
  show ?thesis by simp
qed

subsection \<open>C5: malformed terms\<close>

text \<open>
  Negative rates and an end date before the start date are not checked: for such terms
  and a deposit before the end date the engine returns two rows.
\<close>

theorem C5_counterexample:
  "ToNumber (interestRate malformed_terms) < 0 \<and> ToNumber (tdsRate malformed_terms) < 0
   \<and> iclEndDate malformed_terms = Some (dateString 2023 3 1)
   \<and> iclStartDate malformed_terms = Some (dateString 2023 4 1)
   \<and> dateString 2023 3 1 < dateString 2023 4 1
   \<and> length (generateLedger clock_jul malformed_terms february_deposit) = 2"
  by code_simp

text \<open>
  Claim C5, as the code has it: a missing start date stops the calculation before any
  row is produced, by returning the empty ledger; when the start date is present, the
  rate is not falsy (it is a number other than 0 or a non-empty string) and a
  transaction is left by the filter, rows are produced whatever the signs of the rates
  and the order of start and end date.
\<close>

theorem C5_only_missing_start_stops_the_calculation:
  "(iclStartDate cust = None \<longrightarrow> generateLedger now cust txs = [])
   \<and> (iclStartDate cust \<noteq> None \<and> truthy (interestRate cust)
        \<and> filter (notAfterEnd cust) txs \<noteq> [] \<longrightarrow> generateLedger now cust txs \<noteq> [])"
  by (simp add: generateLedger_empty_iff sortedTransactions_empty_iff)

theorem C5_witness:
  "iclStartDate no_start_terms = None
   \<and> generateLedger clock_jul no_start_terms example_deposit = []
   \<and> iclStartDate malformed_terms \<noteq> None \<and> truthy (interestRate malformed_terms)
   \<and> filter (notAfterEnd malformed_terms) february_deposit \<noteq> []
   \<and> generateLedger clock_jul malformed_terms february_deposit \<noteq> []"
proof -
  have a: "iclStartDate no_start_terms = None" by (simp add: no_start_terms_def)
  have b: "iclStartDate malformed_terms \<noteq> None" "truthy (interestRate malformed_terms)"
    by (simp_all add: malformed_terms_def)
  have c: "filter (notAfterEnd malformed_terms) february_deposit \<noteq> []" by code_simp
  from C5_only_missing_start_stops_the_calculation [of no_start_terms clock_jul example_deposit]
    C5_only_missing_start_stops_the_calculation [of malformed_terms clock_jul february_deposit]
    a b c
  show ?thesis by simp
qed

subsection \<open>C6: simple mode\<close>

text \<open>
  Claim C6: with \<open>interestMethod = Simple\<close> the ledger has no capitalization row, and
  the cumulative net interest is never reset: the first row's cumulative interest is
  its net interest, and every later row's is the one of the row before it plus its own
  net interest.
\<close>

theorem C6_simple_mode_never_capitalizes:
  assumes "interestMethod cust = ''Simple''"
  shows "(\<forall>r \<in> set (generateLedger now cust txs).
            description r \<noteq> ''Quarterly Interest Capitalized'')
    \<and> (generateLedger now cust txs \<noteq> [] \<longrightarrow>
         cumulativeInterest (generateLedger now cust txs ! 0)
           = netInterest (generateLedger now cust txs ! 0))
    \<and> (\<forall>i. Suc i < length (generateLedger now cust txs) \<longrightarrow>
          cumulativeInterest (generateLedger now cust txs ! Suc i)
            = cumulativeInterest (generateLedger now cust txs ! i)
              + netInterest (generateLedger now cust txs ! Suc i))"
proof -
  define L where "L = generateLedger now cust txs"
  have nocap: "\<not> is_cap r" if "r \<in> set L" for r
  proof
    assume "is_cap r"
    with that have "interestMethod cust = ''Compound''"
      unfolding L_def by (rule cap_row_compound)
    with assms show False by simp
  qed
  have first: "cumulativeInterest (L ! 0) = netInterest (L ! 0)" if "L \<noteq> []"
    using that generateLedger_first(1) [of now cust txs] by (simp add: L_def)
  have adj: "cumulativeInterest (L ! Suc i) = cumulativeInterest (L ! i) + netInterest (L ! Suc i)"
    if "Suc i < length L" for i
  proof -
    have "ledger_adj (L ! i) (L ! Suc i)"
      unfolding L_def using that by (intro generateLedger_adj_nth) (simp add: L_def)
    moreover have "\<not> is_cap (L ! i)" "\<not> is_cap (L ! Suc i)" using that by (simp_all add: nocap)
    ultimately show ?thesis by (simp add: ledger_adj_def)
  qed
  from nocap first adj show ?thesis unfolding L_def [symmetric] by (simp add: is_cap_def)
qed

theorem C6_witness:
  "interestMethod simple_terms = ''Simple''
   \<and> generateLedger clock_oct simple_terms example_deposit ! 1
       \<in> set (generateLedger clock_oct simple_terms example_deposit)
   \<and> description (generateLedger clock_oct simple_terms example_deposit ! 1)
       \<noteq> ''Quarterly Interest Capitalized''
   \<and> generateLedger clock_oct simple_terms example_deposit \<noteq> []
   \<and> cumulativeInterest (generateLedger clock_oct simple_terms example_deposit ! 0)
       = netInterest (generateLedger clock_oct simple_terms example_deposit ! 0)
   \<and> 2 < length (generateLedger clock_oct simple_terms example_deposit)
   \<and> cumulativeInterest (generateLedger clock_oct simple_terms example_deposit ! 2)
       = cumulativeInterest (generateLedger clock_oct simple_terms example_deposit ! 1)
         + netInterest (generateLedger clock_oct simple_terms example_deposit ! 2)"
proof -
  have h1: "interestMethod simple_terms = ''Simple''"
    by (simp add: simple_terms_def)
  have h2: "2 < length (generateLedger clock_oct simple_terms example_deposit)"
    by code_simp
  then have h3: "generateLedger clock_oct simple_terms example_deposit ! 1
       \<in> set (generateLedger clock_oct simple_terms example_deposit)"
    and h4: "generateLedger clock_oct simple_terms example_deposit \<noteq> []"
    and h5: "Suc 1 < length (generateLedger clock_oct simple_terms example_deposit)"
    by auto
  from C6_simple_mode_never_capitalizes [OF h1, of clock_oct example_deposit] h1 h2 h3 h4 h5
  show ?thesis by (auto simp: numeral_2_eq_2)
qed

subsection \<open>C7: cumulative net interest between resets\<close>

text \<open>
  Claim C7: with a rate that is not negative and a TDS rate between 0 and 100, the net
  interest of every row is not negative (the interest of a period with a negative
  running principal is 0), so the cumulative net interest does not decrease from a row
  that is not a capitalization row to the next row; after a capitalization row the
  next row's cumulative interest is its own net interest, that is, the running total
  was reset to zero.
\<close>

theorem C7_cumulative_interest_monotone_between_resets:
  assumes "0 \<le> ToNumber (interestRate cust)" "0 \<le> ToNumber (tdsRate cust)"
    "ToNumber (tdsRate cust) \<le> 100"
  shows "(\<forall>r \<in> set (generateLedger now cust txs). 0 \<le> netInterest r)
    \<and> (\<forall>i. Suc i < length (generateLedger now cust txs) \<longrightarrow>
          (if description (generateLedger now cust txs ! i) = ''Quarterly Interest Capitalized''
           then cumulativeInterest (generateLedger now cust txs ! Suc i)
                  = netInterest (generateLedger now cust txs ! Suc i)
           else cumulativeInterest (generateLedger now cust txs ! i)
                  \<le> cumulativeInterest (generateLedger now cust txs ! Suc i)))"
proof -
  define L where "L = generateLedger now cust txs"
  have net: "0 \<le> netInterest r" if "r \<in> set L" for r
  proof -
    from that obtain s e nx P C where
      "r = event_row cust (sortedTransactions cust txs) e nx P C
         \<or> r = cap_row (event_row cust (sortedTransactions cust txs) e nx P C)
           \<and> shouldCapitalize cust s e
               (cumulativeInterest (event_row cust (sortedTransactions cust txs) e nx P C))"
      unfolding L_def by (rule generateLedger_rows)
    then show ?thesis using event_row_net_nonneg [OF assms] by (auto simp: cap_row_sel)
  qed
  have adj: "if is_cap (L ! i) then cumulativeInterest (L ! Suc i) = netInterest (L ! Suc i)
      else cumulativeInterest (L ! i) \<le> cumulativeInterest (L ! Suc i)"
    if "Suc i < length L" for i
  proof -
    have a: "ledger_adj (L ! i) (L ! Suc i)"
      unfolding L_def using that by (intro generateLedger_adj_nth) (simp add: L_def)
    have "0 \<le> netInterest (L ! Suc i)" using that by (simp add: net)
    with a show ?thesis by (auto simp: ledger_adj_def split: if_splits)
  qed
  from net adj show ?thesis unfolding L_def [symmetric] by (simp add: is_cap_def)
qed

theorem C7_witness:
  "0 \<le> ToNumber (interestRate example_terms) \<and> 0 \<le> ToNumber (tdsRate example_terms)
   \<and> ToNumber (tdsRate example_terms) \<le> 100
   \<and> 3 < length (generateLedger clock_oct example_terms example_deposit)
   \<and> description (generateLedger clock_oct example_terms example_deposit ! 2)
       = ''Quarterly Interest Capitalized''
   \<and> cumulativeInterest (generateLedger clock_oct example_terms example_deposit ! 3)
       = netInterest (generateLedger clock_oct example_terms example_deposit ! 3)
   \<and> description (generateLedger clock_oct example_terms example_deposit ! 0)
       \<noteq> ''Quarterly Interest Capitalized''
   \<and> cumulativeInterest (generateLedger clock_oct example_terms example_deposit ! 0)
       \<le> cumulativeInterest (generateLedger clock_oct example_terms example_deposit ! 1)
   \<and> 0 \<le> netInterest (generateLedger clock_oct example_terms example_deposit ! 1)"
proof -
  have r: "0 \<le> ToNumber (interestRate example_terms)" "0 \<le> ToNumber (tdsRate example_terms)"
    "ToNumber (tdsRate example_terms) \<le> 100"
    by (simp_all add: example_terms_def)
  have h1: "3 < length (generateLedger clock_oct example_terms example_deposit)"
    by code_simp
  have h2: "description (generateLedger clock_oct example_terms example_deposit ! 2)
       = ''Quarterly Interest Capitalized''"
    by code_simp
  have h3: "description (generateLedger clock_oct example_terms example_deposit ! 0)
       \<noteq> ''Quarterly Interest Capitalized''"
    by code_simp
  from h1 have m: "generateLedger clock_oct example_terms example_deposit ! 1
       \<in> set (generateLedger clock_oct example_terms example_deposit)"
    and l: "Suc 2 < length (generateLedger clock_oct example_terms example_deposit)"
      "Suc 0 < length (generateLedger clock_oct example_terms example_deposit)"
    by auto
  from C7_cumulative_interest_monotone_between_resets [OF r, of clock_oct example_deposit]
  have a: "\<forall>r \<in> set (generateLedger clock_oct example_terms example_deposit). 0 \<le> netInterest r"
    and b: "\<And>i. Suc i < length (generateLedger clock_oct example_terms example_deposit) \<Longrightarrow>
          (if description (generateLedger clock_oct example_terms example_deposit ! i)
                = ''Quarterly Interest Capitalized''
           then cumulativeInterest (generateLedger clock_oct example_terms example_deposit ! Suc i)
                  = netInterest (generateLedger clock_oct example_terms example_deposit ! Suc i)
           else cumulativeInterest (generateLedger clock_oct example_terms example_deposit ! i)
                  \<le> cumulativeInterest (generateLedger clock_oct example_terms example_deposit ! Suc i))"
    by blast+
  from b [OF l(1)] h2
  have c: "cumulativeInterest (generateLedger clock_oct example_terms example_deposit ! 3)
       = netInterest (generateLedger clock_oct example_terms example_deposit ! 3)"
    by (simp add: eval_nat_numeral)
  from b [OF l(2)] h3
  have d: "cumulativeInterest (generateLedger clock_oct example_terms example_deposit ! 0)
       \<le> cumulativeInterest (generateLedger clock_oct example_terms example_deposit ! 1)"
    by simp
  from a m have e: "0 \<le> netInterest (generateLedger clock_oct example_terms example_deposit ! 1)"
    by blast
  from r h1 h2 h3 c d e show ?thesis by simp
qed

subsection \<open>C8: the fields of a row\<close>

text \<open>
  A row of kind \<^verbatim>\<open>Deposit\<close> carries the deposit and the interest of the period that
  starts at its date: the engine pushes one row per event date.
\<close>

theorem C8_counterexample:
  "description (hd (generateLedger clock_jul example_terms example_deposit)) = ''Deposit''
   \<and> paid (hd (generateLedger clock_jul example_terms example_deposit)) = 100000
   \<and> 0 < interest (hd (generateLedger clock_jul example_terms example_deposit))
   \<and> 0 < tds (hd (generateLedger clock_jul example_terms example_deposit))
   \<and> 0 < netInterest (hd (generateLedger clock_jul example_terms example_deposit))"
  by code_simp

text \<open>
  Claim C8, as the code has it: for transactions whose amounts are not negative, every
  row has one of the four kinds, the amounts paid and repaid are zero unless the kind
  is \<^verbatim>\<open>Deposit\<close> or \<^verbatim>\<open>Repayment\<close>, and gross interest, TDS and net interest are zero on
  a capitalization row.
\<close>

theorem C8_row_fields_by_kind:
  assumes "\<forall>t \<in> set txs. 0 \<le> tx_paid t \<and> 0 \<le> tx_repaid t"
  shows "\<forall>r \<in> set (generateLedger now cust txs).
      description r \<in> {''Deposit'', ''Repayment'', ''Interest Period'',
                        ''Quarterly Interest Capitalized''}
      \<and> (description r \<notin> {''Deposit'', ''Repayment''} \<longrightarrow> paid r = 0 \<and> repaid r = 0)
      \<and> (description r = ''Quarterly Interest Capitalized'' \<longrightarrow>
           interest r = 0 \<and> tds r = 0 \<and> netInterest r = 0)"
proof
  fix r
  assume "r \<in> set (generateLedger now cust txs)"
  then obtain s e nx P C where
    r: "r = event_row cust (sortedTransactions cust txs) e nx P C
         \<or> r = cap_row (event_row cust (sortedTransactions cust txs) e nx P C)
           \<and> shouldCapitalize cust s e
               (cumulativeInterest (event_row cust (sortedTransactions cust txs) e nx P C))"
    by (rule generateLedger_rows)
  have sub: "\<forall>t \<in> set (sortedTransactions cust txs). 0 \<le> tx_paid t \<and> 0 \<le> tx_repaid t"
    using assms by (simp add: sortedTransactions_def)
  define ev where "ev = event_row cust (sortedTransactions cust txs) e nx P C"
  from r consider "r = ev" | "r = cap_row ev" unfolding ev_def by blast
  then show "description r \<in> {''Deposit'', ''Repayment'', ''Interest Period'',
                        ''Quarterly Interest Capitalized''}
      \<and> (description r \<notin> {''Deposit'', ''Repayment''} \<longrightarrow> paid r = 0 \<and> repaid r = 0)
      \<and> (description r = ''Quarterly Interest Capitalized'' \<longrightarrow>
           interest r = 0 \<and> tds r = 0 \<and> netInterest r = 0)"
  proof cases
    case 1
    have d: "description ev \<in> {''Deposit'', ''Repayment'', ''Interest Period''}"
      unfolding ev_def by (rule event_row_description)
    have "description ev = ''Interest Period'' \<Longrightarrow> paid ev = 0 \<and> repaid ev = 0"
      unfolding ev_def using sub by (rule event_row_amounts)
    with d show ?thesis unfolding 1 by auto
  next
    case 2
    show ?thesis unfolding 2 by (simp add: cap_row_def)
  qed
qed

theorem C8_witness:
  "0 \<le> tx_paid (hd example_deposit) \<and> 0 \<le> tx_repaid (hd example_deposit)
   \<and> 2 < length (generateLedger clock_jul example_terms example_deposit)
   \<and> description (generateLedger clock_jul example_terms example_deposit ! 1) = ''Interest Period''
   \<and> paid (generateLedger clock_jul example_terms example_deposit ! 1) = 0
   \<and> repaid (generateLedger clock_jul example_terms example_deposit ! 1) = 0
   \<and> description (generateLedger clock_jul example_terms example_deposit ! 2)
       = ''Quarterly Interest Capitalized''
   \<and> paid (generateLedger clock_jul example_terms example_deposit ! 2) = 0
   \<and> repaid (generateLedger clock_jul example_terms example_deposit ! 2) = 0
   \<and> interest (generateLedger clock_jul example_terms example_deposit ! 2) = 0
   \<and> tds (generateLedger clock_jul example_terms example_deposit ! 2) = 0
   \<and> netInterest (generateLedger clock_jul example_terms example_deposit ! 2) = 0"
proof -
  have h0: "\<forall>t \<in> set example_deposit. 0 \<le> tx_paid t \<and> 0 \<le> tx_repaid t"
    by (simp add: example_deposit_def)
  have h1: "2 < length (generateLedger clock_jul example_terms example_deposit)"
    by code_simp
  have h2: "description (generateLedger clock_jul example_terms example_deposit ! 1)
      = ''Interest Period''"
    by code_simp
  have h3: "description (generateLedger clock_jul example_terms example_deposit ! 2)
       = ''Quarterly Interest Capitalized''"
    by code_simp
  from h1 have m: "generateLedger clock_jul example_terms example_deposit ! 1
       \<in> set (generateLedger clock_jul example_terms example_deposit)"
     "generateLedger clock_jul example_terms example_deposit ! 2
       \<in> set (generateLedger clock_jul example_terms example_deposit)"
    by auto
  from C8_row_fields_by_kind [OF h0, of clock_jul example_terms] m h2 h3
  have "paid (generateLedger clock_jul example_terms example_deposit ! 1) = 0
     \<and> repaid (generateLedger clock_jul example_terms example_deposit ! 1) = 0"
    "paid (generateLedger clock_jul example_terms example_deposit ! 2) = 0
   \<and> repaid (generateLedger clock_jul example_terms example_deposit ! 2) = 0
   \<and> interest (generateLedger clock_jul example_terms example_deposit ! 2) = 0
   \<and> tds (generateLedger clock_jul example_terms example_deposit ! 2) = 0
   \<and> netInterest (generateLedger clock_jul example_terms example_deposit ! 2) = 0"
    by fastforce+
  with h0 h1 h2 h3 show ?thesis by (simp add: example_deposit_def)
qed

subsection \<open>C9: the order of the rows\<close>

text \<open>
  Claim C9: the dates of adjacent rows do not decrease, and when two adjacent rows have
  the same date, a row of kind interest or capitalization is not followed by a row of
  kind deposit or repayment: the second is the capitalization row of the first.
\<close>

theorem C9_rows_ordered_by_date:
  assumes "Suc i < length (generateLedger now cust txs)"
  shows "date (generateLedger now cust txs ! i) \<le> date (generateLedger now cust txs ! Suc i)
    \<and> (date (generateLedger now cust txs ! i) = date (generateLedger now cust txs ! Suc i) \<longrightarrow>
         \<not> (description (generateLedger now cust txs ! i)
               \<in> {''Interest Period'', ''Quarterly Interest Capitalized''}
            \<and> description (generateLedger now cust txs ! Suc i) \<in> {''Deposit'', ''Repayment''})
         \<and> description (generateLedger now cust txs ! i) \<noteq> ''Quarterly Interest Capitalized''
         \<and> description (generateLedger now cust txs ! Suc i) = ''Quarterly Interest Capitalized'')"
proof -
  define L where "L = generateLedger now cust txs"
  have "ledger_adj (L ! i) (L ! Suc i)"
    unfolding L_def using assms by (rule generateLedger_adj_nth)
  then show ?thesis unfolding L_def [symmetric]
    by (auto simp: ledger_adj_def is_cap_def split: if_splits)
qed

theorem C9_witness:
  "2 < length (generateLedger clock_oct example_terms example_deposit)
   \<and> date (generateLedger clock_oct example_terms example_deposit ! 1)
       = date (generateLedger clock_oct example_terms example_deposit ! 2)
   \<and> description (generateLedger clock_oct example_terms example_deposit ! 1)
       \<noteq> ''Quarterly Interest Capitalized''
   \<and> description (generateLedger clock_oct example_terms example_deposit ! 2)
       = ''Quarterly Interest Capitalized''
   \<and> date (generateLedger clock_oct example_terms example_deposit ! 0)
       \<le> date (generateLedger clock_oct example_terms example_deposit ! 1)"
proof -
  have h1: "2 < length (generateLedger clock_oct example_terms example_deposit)"
    by code_simp
  have h2: "date (generateLedger clock_oct example_terms example_deposit ! 1)
       = date (generateLedger clock_oct example_terms example_deposit ! 2)"
    by code_simp
  from h1 have l: "Suc 1 < length (generateLedger clock_oct example_terms example_deposit)"
    "Suc 0 < length (generateLedger clock_oct example_terms example_deposit)"
    by auto
  from C9_rows_ordered_by_date [OF l(1)] C9_rows_ordered_by_date [OF l(2)] h1 h2
  show ?thesis by (simp add: eval_nat_numeral)
qed

subsection \<open>C10: zero rate or unparseable start date\<close>

text \<open>
  A zero rate typed into the form reaches the engine as the string \<^verbatim>\<open>"0"\<close>, which is not
  falsy: the guard of line 39 lets it pass, and the ledger of the example has two rows.
\<close>

theorem C10_counterexample:
  "interestRate zero_string_terms = NumericString 0
   \<and> ToNumber (interestRate zero_string_terms) = 0
   \<and> length (generateLedger clock_jul zero_string_terms example_deposit) = 2
   \<and> interest (hd (generateLedger clock_jul zero_string_terms example_deposit)) = 0"
  by code_simp

text \<open>
  Claim C10, as the code has it: when the start date does not parse, or the rate is
  falsy (the number 0, or the empty string of an emptied form field),
  \<^verbatim>\<open>generateLedger\<close> returns the empty ledger (an ordinary return value, there is no
  error signal), also when the filtered transaction list is not empty. A rate that is
  the string \<^verbatim>\<open>"0"\<close> is not falsy: with a start date and a transaction left by the
  filter the ledger has rows, and every row has zero gross interest, TDS and net
  interest.
\<close>

theorem C10_falsy_rate_or_unparsed_start_gives_empty_ledger:
  "(\<not> truthy (interestRate cust) \<or> parseDate (iclStartDate cust) = None \<longrightarrow>
      generateLedger now cust txs = [])
   \<and> (interestRate cust = Number 0 \<or> interestRate cust = EmptyString \<longrightarrow>
        generateLedger now cust txs = [])
   \<and> (interestRate cust = NumericString 0 \<and> iclStartDate cust \<noteq> None
        \<and> filter (notAfterEnd cust) txs \<noteq> [] \<longrightarrow>
        generateLedger now cust txs \<noteq> []
        \<and> (\<forall>r \<in> set (generateLedger now cust txs).
              interest r = 0 \<and> tds r = 0 \<and> netInterest r = 0))"
proof -
  have a: "generateLedger now cust txs = []"
    if "\<not> truthy (interestRate cust) \<or> parseDate (iclStartDate cust) = None"
    using that by (auto simp: generateLedger_def split: option.splits)
  have b: "generateLedger now cust txs = []"
    if "interestRate cust = Number 0 \<or> interestRate cust = EmptyString"
    using that a by auto
  have c: "generateLedger now cust txs \<noteq> []
        \<and> (\<forall>r \<in> set (generateLedger now cust txs).
              interest r = 0 \<and> tds r = 0 \<and> netInterest r = 0)"
    if "interestRate cust = NumericString 0" "iclStartDate cust \<noteq> None"
      "filter (notAfterEnd cust) txs \<noteq> []"
  proof
    show "generateLedger now cust txs \<noteq> []"
      using that by (simp add: generateLedger_empty_iff sortedTransactions_empty_iff)
    show "\<forall>r \<in> set (generateLedger now cust txs).
              interest r = 0 \<and> tds r = 0 \<and> netInterest r = 0"
      using that(1) zero_rate_rows [of cust _ now txs] by simp
  qed
  from a b c show ?thesis by blast
qed

theorem C10_witness:
  "interestRate empty_rate_terms = EmptyString
   \<and> filter (notAfterEnd empty_rate_terms) example_deposit \<noteq> []
   \<and> generateLedger clock_jul empty_rate_terms example_deposit = []
   \<and> parseDate (iclStartDate no_start_terms) = None
   \<and> generateLedger clock_jul no_start_terms example_deposit = []
   \<and> interestRate zero_string_terms = NumericString 0
   \<and> filter (notAfterEnd zero_string_terms) example_deposit \<noteq> []
   \<and> generateLedger clock_jul zero_string_terms example_deposit \<noteq> []
   \<and> interest (hd (generateLedger clock_jul zero_string_terms example_deposit)) = 0
   \<and> netInterest (hd (generateLedger clock_jul zero_string_terms example_deposit)) = 0"
proof -
  have e: "interestRate empty_rate_terms = EmptyString"
    by (simp add: empty_rate_terms_def)
  have n: "filter (notAfterEnd empty_rate_terms) example_deposit \<noteq> []"
    by code_simp
  have p: "parseDate (iclStartDate no_start_terms) = None"
    by (simp add: no_start_terms_def)
  have z: "interestRate zero_string_terms = NumericString 0"
    "iclStartDate zero_string_terms \<noteq> None"
    by (simp_all add: zero_string_terms_def example_terms_def)
  have f: "filter (notAfterEnd zero_string_terms) example_deposit \<noteq> []"
    by code_simp
  from C10_falsy_rate_or_unparsed_start_gives_empty_ledger
    [of empty_rate_terms clock_jul example_deposit] e
  have r1: "generateLedger clock_jul empty_rate_terms example_deposit = []" by simp
  from C10_falsy_rate_or_unparsed_start_gives_empty_ledger
    [of no_start_terms clock_jul example_deposit] p
  have r2: "generateLedger clock_jul no_start_terms example_deposit = []" by simp
  from C10_falsy_rate_or_unparsed_start_gives_empty_ledger
    [of zero_string_terms clock_jul example_deposit] z f
  have r3: "generateLedger clock_jul zero_string_terms example_deposit \<noteq> []"
    and r4: "\<forall>r \<in> set (generateLedger clock_jul zero_string_terms example_deposit).
              interest r = 0 \<and> tds r = 0 \<and> netInterest r = 0"
    by simp_all
  from r3 have "hd (generateLedger clock_jul zero_string_terms example_deposit)
      \<in> set (generateLedger clock_jul zero_string_terms example_deposit)"
    by simp
  with r4 have r5: "interest (hd (generateLedger clock_jul zero_string_terms example_deposit)) = 0"
    "netInterest (hd (generateLedger clock_jul zero_string_terms example_deposit)) = 0"
    by blast+
  from e n p z(1) f r1 r2 r3 r5 show ?thesis by simp
qed

end
